theory Spec2Isabelle
  imports Complex_Main "HOL-Library.Sublist" "HOL-Library.Multiset"
begin

section \<open>JavaScript values used by the memory hook\<close>

text \<open>
  The hook \<open>useMemorySystem\<close> (src/unnamed/part_003) keeps three arrays of memory items
  and scores them with JavaScript numbers and strings.  Numbers are modelled as \<open>real\<close>
  (scores, importance) and \<open>int\<close> (access counts, millisecond timestamps, slice bounds):
  rounding of IEEE doubles is not represented, and \<open>NaN\<close> and the infinities only where
  the retention score is computed in double arithmetic
  (\<open>calculateRetentionScore_double\<close>).  Strings are \<open>string\<close>, one \<open>char\<close> per ASCII
  code unit.
\<close>

subsection \<open>String methods\<close>

definition toLowerCase_char :: "char \<Rightarrow> char" where
  "toLowerCase_char c =
     (let n = (of_char c :: nat) in if 65 \<le> n \<and> n \<le> 90 then char_of (n + 32) else c)"

definition toLowerCase :: "string \<Rightarrow> string" where
  "toLowerCase s = map toLowerCase_char s"

text \<open>The ASCII characters matched by the regular expression class \<open>\s\<close>.\<close>

definition isSpace :: "char \<Rightarrow> bool" where
  "isSpace c = (let n = (of_char c :: nat) in n = 32 \<or> (9 \<le> n \<and> n \<le> 13))"

text \<open>
  \<open>s.split(/\s+/)\<close>: the pieces between maximal runs of white space.  A leading or a
  trailing run leaves an empty piece, and the empty string gives one empty piece, so the
  result is never the empty array (the \<open>[]\<close> branch of the \<open>case\<close> is never taken).
\<close>

function split_ws :: "string \<Rightarrow> string list" where
  "split_ws [] = [[]]"
| "split_ws (c # cs) =
     (if isSpace c then [] # split_ws (dropWhile isSpace cs)
      else (case split_ws cs of [] \<Rightarrow> [[c]] | w # ws \<Rightarrow> (c # w) # ws))"
  by pat_completeness auto
termination
proof (relation "measure length")
  show "wf (measure length)"
    by simp
next
  fix c :: char and cs :: string
  have "length (dropWhile isSpace cs) \<le> length cs"
    by (rule length_dropWhile_le)
  then show "(dropWhile isSpace cs, c # cs) \<in> measure length"
    by simp
next
  fix c :: char and cs :: string
  show "(cs, c # cs) \<in> measure length"
    by simp
qed

text \<open>\<open>s.includes(sub)\<close> on strings: \<open>sub\<close> occurs in \<open>s\<close> as a contiguous run.\<close>

fun includes_str :: "string \<Rightarrow> string \<Rightarrow> bool" where
  "includes_str [] sub = (sub = [])"
| "includes_str (c # cs) sub = (prefix sub (c # cs) \<or> includes_str cs sub)"

text \<open>\<open>xs.join(sep)\<close> on an array of strings.\<close>

fun join :: "string \<Rightarrow> string list \<Rightarrow> string" where
  "join sep [] = []"
| "join sep [x] = x"
| "join sep (x # y # ys) = x @ sep @ join sep (y # ys)"

text \<open>
  \<open>xs.slice(start, end)\<close> with the clamping of negative and oversized bounds that
  \<open>Array.prototype.slice\<close> performs.
\<close>

definition slice :: "int \<Rightarrow> int \<Rightarrow> 'a list \<Rightarrow> 'a list" where
  "slice start fin xs =
     (let len = int (length xs);
          k = (if start < 0 then max (len + start) 0 else min start len);
          final = (if fin < 0 then max (len + fin) 0 else min fin len)
      in take (nat (final - k)) (drop (nat k) xs))"

text \<open>\<open>xs.slice(start)\<close>: the end defaults to the length.\<close>

definition slice_from :: "int \<Rightarrow> 'a list \<Rightarrow> 'a list" where
  "slice_from start xs = slice start (int (length xs)) xs"

text \<open>
  \<open>xs.sort((a, b) => key(b) - key(a))\<close>: \<open>Array.prototype.sort\<close> is stable, so the result
  is the stable sort by descending key.
\<close>

definition sort_desc :: "('a \<Rightarrow> 'k::linordered_idom) \<Rightarrow> 'a list \<Rightarrow> 'a list" where
  "sort_desc key xs = sort_key (\<lambda>x. - key x) xs"

text \<open>
  \<open>JSON.stringify(s)\<close> for a string value \<open>s\<close> (ECMAScript \<open>QuoteJSONString\<close>, ASCII):
  the text between double quotes, with the quote, the backslash and the control characters
  escaped.
\<close>

definition hex_digit :: "nat \<Rightarrow> char" where
  "hex_digit n = (if n < 10 then char_of (48 + n) else char_of (87 + n))"

definition json_escape :: "char \<Rightarrow> string" where
  "json_escape c =
     (let n = (of_char c :: nat) in
      if n = 34 then [CHR 0x5C, CHR 0x22]
      else if n = 92 then [CHR 0x5C, CHR 0x5C]
      else if n = 8 then [CHR 0x5C, CHR ''b'']
      else if n = 9 then [CHR 0x5C, CHR ''t'']
      else if n = 10 then [CHR 0x5C, CHR ''n'']
      else if n = 12 then [CHR 0x5C, CHR ''f'']
      else if n = 13 then [CHR 0x5C, CHR ''r'']
      else if n < 32 then [CHR 0x5C, CHR ''u'', CHR ''0'', CHR ''0'', hex_digit (n div 16), hex_digit (n mod 16)]
      else [c])"

definition JSON_stringify_string :: "string \<Rightarrow> string" where
  "JSON_stringify_string s = [CHR 0x22] @ concat (map json_escape s) @ [CHR 0x22]"

section \<open>Data model\<close>

text \<open>
  \<open>MemoryItem\<close> (src/.github/workflows/useFileProcessing.ts).  \<open>content\<close> has type \<open>any\<close>
  and is only ever passed to \<open>JSON.stringify\<close>; it is a type parameter here and the
  serialiser is an argument \<open>stringify\<close> of the functions that read it.  \<open>timestamp\<close> and
  \<open>lastAccessed\<close> are \<open>Date\<close>s, kept as milliseconds since the epoch.  The fields
  \<open>metadata\<close>, \<open>compressionLevel\<close> and \<open>semanticVector\<close> are never read or written by the
  hook and are left out.  The field \<open>id\<close> is called \<open>item_id\<close>.
\<close>

record 'c MemoryItem =
  item_id :: string
  content :: 'c
  timestamp :: int
  accessCount :: int
  importance :: real
  tags :: "string list"
  retentionScore :: "real option"
  lastAccessed :: "int option"

text \<open>
  \<open>MemorySystemState\<close>.  Its field \<open>retentionScore\<close> (the configured threshold) is called
  \<open>retentionScore_sys\<close>, the name being taken by the item's field.
\<close>

record 'c MemorySystemState =
  shortTerm :: "'c MemoryItem list"
  longTerm :: "'c MemoryItem list"
  archive :: "'c MemoryItem list"
  compressionRatio :: real
  retentionScore_sys :: real
  cyclicCleanup :: nat

record MemoryConfig =
  cfg_compressionRatio :: "real option"
  cfg_retentionThreshold :: "real option"
  cfg_cleanupInterval :: "real option"

datatype SortBy = Relevance | Recency | Importance

record MemoryRetrievalOptions =
  limit :: "int option"
  threshold :: "real option"
  includeArchived :: "bool option"
  sortBy :: "SortBy option"

text \<open>\<open>x || d\<close> on an optional number: \<open>undefined\<close> and \<open>0\<close> are both falsy.\<close>

definition or_default :: "real option \<Rightarrow> real \<Rightarrow> real" where
  "or_default x d = (case x of None \<Rightarrow> d | Some v \<Rightarrow> if v = 0 then d else v)"

text \<open>The initial state of the hook (the argument of \<open>useState\<close>).\<close>

definition initial_state :: "MemoryConfig \<Rightarrow> 'c MemorySystemState" where
  "initial_state config =
     \<lparr> shortTerm = [], longTerm = [], archive = [],
       compressionRatio = or_default (cfg_compressionRatio config) 0.7,
       retentionScore_sys = or_default (cfg_retentionThreshold config) 0.8,
       cyclicCleanup = 0 \<rparr>"

section \<open>Scoring\<close>

text \<open>\<open>calculateSimilarity\<close>: equal lower-cased serialisations give 1, otherwise the Jaccard
  index of the two sets of white-space separated words.\<close>

definition calculateSimilarity :: "('c \<Rightarrow> string) \<Rightarrow> 'c \<Rightarrow> 'c \<Rightarrow> real" where
  "calculateSimilarity stringify content1 content2 =
     (let str1 = toLowerCase (stringify content1);
          str2 = toLowerCase (stringify content2)
      in if str1 = str2 then 1.0
         else
           (let words1 = set (split_ws str1);
                words2 = set (split_ws str2);
                intersection = Set.filter (\<lambda>x. x \<in> words2) words1;
                union_w = words1 \<union> words2
            in real (card intersection) / real (card union_w)))"

text \<open>
  \<open>calculateRelevance\<close>.  \<open>now\<close> is the value of \<open>Date.now()\<close>.  For \<open>accessCount < 0\<close>
  JavaScript's \<open>Math.log\<close> gives \<open>NaN\<close> or \<open>-Infinity\<close>, which \<open>ln\<close> does not model: facts
  about relevance below assume \<open>accessCount \<ge> 0\<close>.
\<close>

definition calculateRelevance :: "('c \<Rightarrow> string) \<Rightarrow> int \<Rightarrow> string \<Rightarrow> 'c MemoryItem \<Rightarrow> real" where
  "calculateRelevance stringify now query memory =
     (let queryLower = toLowerCase query;
          contentStr = toLowerCase (stringify (content memory));
          tagsStr = toLowerCase (join '' '' (tags memory));
          score = 0;
          score = (if includes_str contentStr queryLower then score + 0.8 else score);
          score = (if includes_str tagsStr queryLower then score + 0.6 else score);
          queryWords = split_ws queryLower;
          contentWords = split_ws contentStr;
          overlap = length (filter (\<lambda>word. word \<in> set contentWords) queryWords);
          score = score + (real overlap / real (length queryWords)) * 0.4;
          score = score * (1 + importance memory * 0.2);
          score = score * (1 + ln (real_of_int (accessCount memory + 1)) * 0.1);
          daysSinceCreation = real_of_int (now - timestamp memory) / (1000 * 60 * 60 * 24);
          score = score * max 0.5 (1 - daysSinceCreation * 0.01)
      in min 1.0 score)"

definition importantTags :: "string list" where
  "importantTags = [''critical'', ''important'', ''user-preference'', ''system-config'']"

text \<open>
  \<open>calculateRetentionScore\<close>, statement by statement, over the reals: the value the code
  computes as long as \<open>Math.exp\<close> stays finite (every record not dated after the current
  time).  \<open>calculateRetentionScore_double\<close> below follows the overflow of doubles.
\<close>

definition calculateRetentionScore :: "'c MemoryItem \<Rightarrow> int \<Rightarrow> real" where
  "calculateRetentionScore memory currentTime =
     (let ageInDays = real_of_int (currentTime - timestamp memory) / (1000 * 60 * 60 * 24);
          score = importance memory;
          score = score + min 0.3 (real_of_int (accessCount memory) * 0.05);
          score = score * exp (- ageInDays * 0.1);
          hasImportantTags = list_ex (\<lambda>tag. tag \<in> set importantTags) (tags memory);
          score = (if hasImportantTags then score * 1.5 else score)
      in min 1.0 score)"

section \<open>The retention score in double arithmetic\<close>

text \<open>
  A JavaScript number as far as overflow goes: a finite value, one of the infinities, or
  \<open>NaN\<close>.  Rounding of finite results is not modelled; a result beyond
  \<open>Number.MAX_VALUE\<close> becomes an infinity.
\<close>

datatype number = Fin real | PosInf | NegInf | NaN

definition MAX_VALUE :: real where
  "MAX_VALUE = (2 - 1 / 2 ^ 52) * 2 ^ 1023"

definition number_of_real :: "real \<Rightarrow> number" where
  "number_of_real r =
     (if r > MAX_VALUE then PosInf else if r < - MAX_VALUE then NegInf else Fin r)"

fun js_plus :: "number \<Rightarrow> number \<Rightarrow> number" where
  "js_plus (Fin a) (Fin b) = number_of_real (a + b)"
| "js_plus NaN y = NaN"
| "js_plus x NaN = NaN"
| "js_plus PosInf NegInf = NaN"
| "js_plus NegInf PosInf = NaN"
| "js_plus PosInf y = PosInf"
| "js_plus x PosInf = PosInf"
| "js_plus NegInf y = NegInf"
| "js_plus x NegInf = NegInf"

fun js_times :: "number \<Rightarrow> number \<Rightarrow> number" where
  "js_times (Fin a) (Fin b) = number_of_real (a * b)"
| "js_times NaN y = NaN"
| "js_times x NaN = NaN"
| "js_times (Fin a) PosInf = (if a = 0 then NaN else if 0 < a then PosInf else NegInf)"
| "js_times (Fin a) NegInf = (if a = 0 then NaN else if 0 < a then NegInf else PosInf)"
| "js_times PosInf (Fin b) = (if b = 0 then NaN else if 0 < b then PosInf else NegInf)"
| "js_times NegInf (Fin b) = (if b = 0 then NaN else if 0 < b then NegInf else PosInf)"
| "js_times PosInf PosInf = PosInf"
| "js_times NegInf NegInf = PosInf"
| "js_times PosInf NegInf = NegInf"
| "js_times NegInf PosInf = NegInf"

text \<open>\<open>Math.min(x, y)\<close>.\<close>

fun js_min :: "number \<Rightarrow> number \<Rightarrow> number" where
  "js_min NaN y = NaN"
| "js_min x NaN = NaN"
| "js_min NegInf y = NegInf"
| "js_min x NegInf = NegInf"
| "js_min PosInf y = y"
| "js_min x PosInf = x"
| "js_min (Fin a) (Fin b) = Fin (min a b)"

text \<open>\<open>Math.exp(x)\<close> at a finite \<open>x\<close>.\<close>

definition js_exp :: "real \<Rightarrow> number" where
  "js_exp x = number_of_real (exp x)"

text \<open>
  \<open>calculateRetentionScore\<close> once more, statement by statement, with the overflow of
  doubles: the value the code returns also when \<open>Math.exp\<close> or a product leaves the
  finite range.
\<close>

definition calculateRetentionScore_double :: "'c MemoryItem \<Rightarrow> int \<Rightarrow> number" where
  "calculateRetentionScore_double memory currentTime =
     (let ageInDays = real_of_int (currentTime - timestamp memory) / (1000 * 60 * 60 * 24);
          score = Fin (importance memory);
          score = js_plus score (Fin (min 0.3 (real_of_int (accessCount memory) * 0.05)));
          score = js_times score (js_exp (- ageInDays * 0.1));
          hasImportantTags = list_ex (\<lambda>tag. tag \<in> set importantTags) (tags memory);
          score = (if hasImportantTags then js_times score (Fin 1.5) else score)
      in js_min (Fin 1.0) score)"

section \<open>Operations\<close>

text \<open>
  The \<open>retentionScore\<close> of a scored copy.  Every element of \<open>scoredMemories\<close> has just been
  given one, so the \<open>None\<close> case is not reached in \<open>compressMemoriesInternal\<close>.
\<close>

definition score_of :: "'c MemoryItem \<Rightarrow> real" where
  "score_of m = (case retentionScore m of Some r \<Rightarrow> r | None \<Rightarrow> 0)"

text \<open>
  \<open>compressMemoriesInternal\<close> mutates the state object it is given; the model returns the
  mutated state.  \<open>now\<close> is the time of \<open>new Date()\<close> in milliseconds.
\<close>

definition compressMemoriesInternal :: "int \<Rightarrow> 'c MemorySystemState \<Rightarrow> 'c MemorySystemState" where
  "compressMemoriesInternal now state0 =
     (let compressionThreshold = (50 :: nat);
          state1 =
            (if length (shortTerm state0) > compressionThreshold then
               (let scoredMemories =
                      sort_desc score_of
                        (map (\<lambda>memory. memory\<lparr>retentionScore := Some (calculateRetentionScore memory now)\<rparr>)
                           (shortTerm state0));
                    keepInShortTerm = \<lfloor>real compressionThreshold * 0.7\<rfloor>;
                    newShortTerm = slice 0 keepInShortTerm scoredMemories;
                    moveToLongTerm = slice keepInShortTerm (keepInShortTerm + 20) scoredMemories;
                    toArchive = slice_from (keepInShortTerm + 20) scoredMemories;
                    archiveWorthy = filter (\<lambda>m. score_of m > 0.3) toArchive;
                    totalOriginal = length scoredMemories;
                    totalKept = length newShortTerm + length moveToLongTerm + length archiveWorthy
                in state0\<lparr> shortTerm := newShortTerm,
                           longTerm := longTerm state0 @ moveToLongTerm,
                           archive := archive state0 @ archiveWorthy,
                           compressionRatio := real totalKept / real totalOriginal \<rparr>)
             else state0);
          archiveRetentionDays = 30;
          cutoffDate = now - archiveRetentionDays * 24 * 60 * 60 * 1000
      in state1\<lparr> archive :=
                   filter (\<lambda>memory. timestamp memory > cutoffDate \<or> importance memory > 0.8)
                     (archive state1),
                 cyclicCleanup := cyclicCleanup state1 + 1 \<rparr>)"

text \<open>\<open>compressMemories\<close>: the state update of the public \<open>compress\<close> operation.\<close>

definition compressMemories :: "int \<Rightarrow> 'c MemorySystemState \<Rightarrow> 'c MemorySystemState" where
  "compressMemories now prev = compressMemoriesInternal now prev"

text \<open>\<open>storeMemory\<close>: the state update passed to \<open>setMemorySystem\<close>.\<close>

definition isDuplicate :: "('c \<Rightarrow> string) \<Rightarrow> 'c MemorySystemState \<Rightarrow> 'c MemoryItem \<Rightarrow> bool" where
  "isDuplicate stringify prev item =
     list_ex (\<lambda>existing. calculateSimilarity stringify (content existing) (content item) > 0.9)
       (shortTerm prev)"

definition storeMemory ::
  "('c \<Rightarrow> string) \<Rightarrow> int \<Rightarrow> 'c MemorySystemState \<Rightarrow> 'c MemoryItem \<Rightarrow> 'c MemorySystemState" where
  "storeMemory stringify now prev item =
     (if \<not> isDuplicate stringify prev item then
        (let newState = prev\<lparr>shortTerm := shortTerm prev @ [item]\<rparr>
         in if length (shortTerm newState) > 100 then compressMemoriesInternal now newState
            else newState)
      else prev)"

text \<open>
  \<open>retrieveMemories\<close> returns the scored copies (an item with its \<open>relevanceScore\<close>, here a
  pair) and updates the state.  The clock is read once for the call, and the state update
  is applied to the state the call was made on.
\<close>

definition bump_access :: "string list \<Rightarrow> 'c MemoryItem \<Rightarrow> 'c MemoryItem" where
  "bump_access retrievedIds m =
     (if item_id m \<in> set retrievedIds then m\<lparr>accessCount := accessCount m + 1\<rparr> else m)"

definition scored_sorted ::
  "('c \<Rightarrow> string) \<Rightarrow> int \<Rightarrow> 'c MemorySystemState \<Rightarrow> string \<Rightarrow> MemoryRetrievalOptions
     \<Rightarrow> ('c MemoryItem \<times> real) list" where
  "scored_sorted stringify now memorySystem query options =
     (let threshold = (case threshold options of None \<Rightarrow> 0.7 | Some t \<Rightarrow> t);
          includeArchived = (case includeArchived options of None \<Rightarrow> False | Some b \<Rightarrow> b);
          sortBy = (case sortBy options of None \<Rightarrow> Relevance | Some k \<Rightarrow> k);
          allMemories = shortTerm memorySystem @ longTerm memorySystem
                          @ (if includeArchived then archive memorySystem else []);
          scoredMemories =
            filter (\<lambda>(memory, relevanceScore). relevanceScore \<ge> threshold)
              (map (\<lambda>memory. (memory, calculateRelevance stringify now query memory)) allMemories)
      in (case sortBy of
            Recency \<Rightarrow> sort_desc (\<lambda>(memory, relevanceScore). timestamp memory) scoredMemories
          | Importance \<Rightarrow> sort_desc (\<lambda>(memory, relevanceScore). importance memory) scoredMemories
          | Relevance \<Rightarrow> sort_desc (\<lambda>(memory, relevanceScore). relevanceScore) scoredMemories))"

definition retrieveMemories ::
  "('c \<Rightarrow> string) \<Rightarrow> int \<Rightarrow> 'c MemorySystemState \<Rightarrow> string \<Rightarrow> MemoryRetrievalOptions
     \<Rightarrow> ('c MemoryItem \<times> real) list \<times> 'c MemorySystemState" where
  "retrieveMemories stringify now memorySystem query options =
     (let limit = (case limit options of None \<Rightarrow> 10 | Some l \<Rightarrow> l);
          scoredMemories = scored_sorted stringify now memorySystem query options;
          retrievedIds = map (\<lambda>(m, relevanceScore). item_id m) (slice 0 limit scoredMemories);
          newState = memorySystem
            \<lparr> shortTerm := map (bump_access retrievedIds) (shortTerm memorySystem),
              longTerm := map (bump_access retrievedIds) (longTerm memorySystem) \<rparr>
      in (slice 0 limit scoredMemories, newState))"

record MemoryStats =
  totalMemories :: nat
  shortTermCount :: nat
  longTermCount :: nat
  archiveCount :: nat
  averageImportance :: real
  stats_compressionRatio :: real
  stats_retentionScore :: real
  cleanupCycles :: nat

definition getMemoryStats :: "'c MemorySystemState \<Rightarrow> MemoryStats" where
  "getMemoryStats memorySystem =
     (let totalMemories = length (shortTerm memorySystem) + length (longTerm memorySystem)
                            + length (archive memorySystem);
          averageImportance =
            (if totalMemories > 0 then
               foldl (\<lambda>sum m. sum + importance m) 0
                 (shortTerm memorySystem @ longTerm memorySystem @ archive memorySystem)
               / real totalMemories
             else 0)
      in \<lparr> totalMemories = totalMemories,
           shortTermCount = length (shortTerm memorySystem),
           longTermCount = length (longTerm memorySystem),
           archiveCount = length (archive memorySystem),
           averageImportance = averageImportance,
           stats_compressionRatio = compressionRatio memorySystem,
           stats_retentionScore = retentionScore_sys memorySystem,
           cleanupCycles = cyclicCleanup memorySystem \<rparr>)"

section \<open>Names used in the statements\<close>

text \<open>The scored copy \<open>{...memory, retentionScore: calculateRetentionScore(memory, now)}\<close>.\<close>

definition annotate :: "int \<Rightarrow> 'c MemoryItem \<Rightarrow> 'c MemoryItem" where
  "annotate now memory = memory\<lparr>retentionScore := Some (calculateRetentionScore memory now)\<rparr>"

text \<open>\<open>scoredMemories\<close> after the sort: the short-term records in promotion order.\<close>

definition ranked :: "int \<Rightarrow> 'c MemoryItem list \<Rightarrow> 'c MemoryItem list" where
  "ranked now xs = sort_desc score_of (map (annotate now) xs)"

text \<open>The predicate of the archive sweep.\<close>

definition archive_keep :: "int \<Rightarrow> 'c MemoryItem \<Rightarrow> bool" where
  "archive_keep now memory \<longleftrightarrow>
     timestamp memory > now - 30 * 24 * 60 * 60 * 1000 \<or> importance memory > 0.8"

text \<open>The records \<open>retrieve\<close> looks at.\<close>

definition candidates :: "'c MemorySystemState \<Rightarrow> MemoryRetrievalOptions \<Rightarrow> 'c MemoryItem list" where
  "candidates s options =
     shortTerm s @ longTerm s @ (if includeArchived options = Some True then archive s else [])"

text \<open>All the records of a store, tier after tier.\<close>

definition all_records :: "'c MemorySystemState \<Rightarrow> 'c MemoryItem list" where
  "all_records s = shortTerm s @ longTerm s @ archive s"

text \<open>A string that \<open>JSON.stringify\<close> copies between the quotes as it is.\<close>

definition plain_text :: "string \<Rightarrow> bool" where
  "plain_text s = list_all (\<lambda>c. json_escape c = [c]) s"

section \<open>Histories of the store\<close>

text \<open>
  The operations the hook exports, and the state after a sequence of calls, each made at
  its own time, starting from the initial state.  \<open>getMemoryStats\<close> reads the state only.
\<close>

datatype 'c operation =
    Store "'c MemoryItem"
  | Retrieve string MemoryRetrievalOptions
  | Compress
  | Stats

fun apply_operation ::
  "('c \<Rightarrow> string) \<Rightarrow> 'c MemorySystemState \<Rightarrow> int \<times> 'c operation \<Rightarrow> 'c MemorySystemState" where
  "apply_operation stringify s (now, Store item) = storeMemory stringify now s item"
| "apply_operation stringify s (now, Retrieve query options) =
     snd (retrieveMemories stringify now s query options)"
| "apply_operation stringify s (now, Compress) = compressMemories now s"
| "apply_operation stringify s (now, Stats) = s"

definition run ::
  "('c \<Rightarrow> string) \<Rightarrow> MemoryConfig \<Rightarrow> (int \<times> 'c operation) list \<Rightarrow> 'c MemorySystemState" where
  "run stringify config ops = foldl (apply_operation stringify) (initial_state config) ops"

section \<open>Concrete stores used as examples\<close>

definition default_config :: MemoryConfig where
  "default_config =
     \<lparr> cfg_compressionRatio = None, cfg_retentionThreshold = None, cfg_cleanupInterval = None \<rparr>"

definition default_options :: MemoryRetrievalOptions where
  "default_options = \<lparr> limit = None, threshold = None, includeArchived = None, sortBy = None \<rparr>"

text \<open>A record with string content, created at time \<open>t\<close> with importance \<open>p\<close>.\<close>

definition item_of :: "string \<Rightarrow> string \<Rightarrow> int \<Rightarrow> real \<Rightarrow> string MemoryItem" where
  "item_of i c t p =
     \<lparr> item_id = i, content = c, timestamp = t, accessCount = 0, importance = p, tags = [],
       retentionScore = None, lastAccessed = None \<rparr>"

text \<open>
  The \<open>k\<close>-th of a family of records created at time 0 with importance \<open>1 - k/100\<close>; their
  contents are different single words.
\<close>

definition demo_item :: "nat \<Rightarrow> string MemoryItem" where
  "demo_item k = item_of (replicate (Suc k) CHR ''i'') (replicate (Suc k) CHR ''a'') 0 (1 - real k / 100)"

definition demo_state :: "nat \<Rightarrow> string MemorySystemState" where
  "demo_state n =
     \<lparr> shortTerm = map demo_item [0..<n], longTerm = [], archive = [],
       compressionRatio = 0.7, retentionScore_sys = 0.8, cyclicCleanup = 0 \<rparr>"

definition day :: int where
  "day = 24 * 60 * 60 * 1000"

definition tagged_item :: "string MemoryItem" where
  "tagged_item = (item_of ''t1'' ''alpha'' 0 0.5)\<lparr>tags := [''draft'', ''critical'']\<rparr>"

definition archive_state :: "string MemoryItem list \<Rightarrow> string MemorySystemState" where
  "archive_state xs =
     \<lparr> shortTerm = [], longTerm = [], archive = xs,
       compressionRatio = 0.7, retentionScore_sys = 0.8, cyclicCleanup = 0 \<rparr>"

definition aged_05 :: "string MemoryItem" where
  "aged_05 = item_of ''a'' ''alpha'' 0 0.5"

definition aged_09 :: "string MemoryItem" where
  "aged_09 = item_of ''b'' ''beta'' 0 0.9"

text \<open>The stores of the family are reached by storing its records one after the other.\<close>

definition demo_history :: "nat \<Rightarrow> (int \<times> string operation) list" where
  "demo_history n = map (\<lambda>k. (0, Store (demo_item k))) [0..<n]"

definition alpha_one :: "string MemoryItem" where
  "alpha_one = item_of ''r1'' ''alpha'' 0 0.5"

definition alpha_two :: "string MemoryItem" where
  "alpha_two = item_of ''r2'' ''alpha two'' 0 0.5"

definition beta_one :: "string MemoryItem" where
  "beta_one = item_of ''r3'' ''beta'' 0 0.5"

definition small_state :: "string MemorySystemState" where
  "small_state =
     \<lparr> shortTerm = [alpha_one, beta_one], longTerm = [alpha_two], archive = [],
       compressionRatio = 0.7, retentionScore_sys = 0.8, cyclicCleanup = 0 \<rparr>"

text \<open>The options of \<open>retrieve(query, {threshold: 0.7})\<close>.\<close>

definition threshold_options :: MemoryRetrievalOptions where
  "threshold_options = default_options\<lparr>threshold := Some 0.7\<rparr>"

text \<open>A record whose content is the query \<open>alpha\<close>, created 50 days before time \<open>50 * day\<close>.\<close>

definition old_state :: "string MemorySystemState" where
  "old_state =
     \<lparr> shortTerm = [item_of ''r1'' ''alpha'' 0 0], longTerm = [], archive = [],
       compressionRatio = 0.7, retentionScore_sys = 0.8, cyclicCleanup = 0 \<rparr>"

text \<open>A record of importance 0, never accessed, dated 7100 days after time 0.\<close>

definition future_item :: "string MemoryItem" where
  "future_item = item_of ''f1'' ''alpha'' (7100 * day) 0"

text \<open>A record of importance 0.5, never accessed, dated 7100 days after time 0.\<close>

definition future_half :: "string MemoryItem" where
  "future_half = item_of ''f2'' ''beta'' (7100 * day) 0.5"

text \<open>
  A store of twelve short-term records: one whose content is \<open>alpha\<close>, and eleven of the
  example family, none of which matches the query \<open>alpha\<close>.
\<close>

definition crowded_state :: "string MemorySystemState" where
  "crowded_state =
     \<lparr> shortTerm = map demo_item [0..<11] @ [alpha_one], longTerm = [], archive = [],
       compressionRatio = 0.7, retentionScore_sys = 0.8, cyclicCleanup = 0 \<rparr>"

section \<open>Facts about the array methods\<close>

lemma keepInShortTerm_35: "\<lfloor>real (50::nat) * 0.7\<rfloor> = (35::int)"
  by simp

lemma slice_0: "0 \<le> n \<Longrightarrow> slice 0 n xs = take (nat n) xs"
  by (simp add: slice_def Let_def min_def)

lemma slice_35_55: "slice 35 55 xs = take 20 (drop 35 xs)"
  by (auto simp: slice_def Let_def min_def)

lemma slice_from_55: "slice_from 55 xs = drop 55 xs"
  by (auto simp: slice_from_def slice_def Let_def min_def)

lemma mset_sort_desc: "mset (sort_desc key xs) = mset xs"
  by (simp add: sort_desc_def)

lemma set_sort_desc: "set (sort_desc key xs) = set xs"
  by (simp add: sort_desc_def)

lemma length_sort_desc: "length (sort_desc key xs) = length xs"
  by (simp add: sort_desc_def)

lemma sorted_sort_desc: "sorted_wrt (\<lambda>a b. key a \<ge> key b) (sort_desc key xs)"
proof -
  have "sorted (map (\<lambda>x. - key x) (sort_desc key xs))"
    by (simp add: sort_desc_def)
  then show ?thesis
    by (simp add: sorted_map sorted_wrt_iff_nth_less)
qed


section \<open>The shape of a compression cycle\<close>

lemma compress_small:
  assumes "length (shortTerm s) \<le> 50"
  shows "compressMemoriesInternal now s =
           s\<lparr> archive := filter (archive_keep now) (archive s),
              cyclicCleanup := cyclicCleanup s + 1 \<rparr>"
  using assms by (simp add: compressMemoriesInternal_def archive_keep_def [abs_def] Let_def)

lemma compress_large:
  assumes "length (shortTerm s) > 50"
  shows "compressMemoriesInternal now s =
           s\<lparr> shortTerm := take 35 (ranked now (shortTerm s)),
              longTerm := longTerm s @ take 20 (drop 35 (ranked now (shortTerm s))),
              archive := filter (archive_keep now)
                 (archive s @ filter (\<lambda>m. score_of m > 0.3) (drop 55 (ranked now (shortTerm s)))),
              compressionRatio :=
                real (length (take 35 (ranked now (shortTerm s)))
                      + length (take 20 (drop 35 (ranked now (shortTerm s))))
                      + length (filter (\<lambda>m. score_of m > 0.3) (drop 55 (ranked now (shortTerm s)))))
                / real (length (ranked now (shortTerm s))),
              cyclicCleanup := cyclicCleanup s + 1 \<rparr>"
proof -
  have r: "sort_desc score_of
             (map (\<lambda>memory. memory\<lparr>retentionScore := Some (calculateRetentionScore memory now)\<rparr>)
                (shortTerm s)) = ranked now (shortTerm s)"
    by (simp add: ranked_def annotate_def [abs_def])
  show ?thesis
    using assms
    by (simp add: compressMemoriesInternal_def Let_def r slice_0 slice_35_55 slice_from_55
        archive_keep_def [abs_def])
qed

lemma score_of_annotate [simp]: "score_of (annotate now m) = calculateRetentionScore m now"
  by (simp add: score_of_def annotate_def)

lemma archive_keep_annotate [simp]: "archive_keep now (annotate t m) = archive_keep now m"
  by (simp add: archive_keep_def annotate_def)



lemma set_ranked: "set (ranked now xs) = annotate now ` set xs"
  by (simp add: ranked_def set_sort_desc)


lemma archive_after_compress:
  "\<exists>added. archive (compressMemoriesInternal now s) = filter (archive_keep now) (archive s @ added)"
proof (cases "length (shortTerm s) > 50")
  case True
  show ?thesis
    by (rule exI [of _ "filter (\<lambda>m. score_of m > 0.3) (drop 55 (ranked now (shortTerm s)))"])
       (simp add: compress_large [OF True])
next
  case False
  then have "length (shortTerm s) \<le> 50" by simp
  then show ?thesis
    by (intro exI [of _ "[]"]) (simp add: compress_small)
qed

lemma length_ranked [simp]: "length (ranked now xs) = length xs"
  by (simp add: ranked_def length_sort_desc)

lemma shortTerm_compress_length:
  "length (shortTerm (compressMemoriesInternal now s))
     = (if length (shortTerm s) > 50 then 35 else length (shortTerm s))"
proof (cases "length (shortTerm s) > 50")
  case True
  then show ?thesis by (simp add: compress_large)
next
  case False
  then show ?thesis by (simp add: compress_small)
qed

lemma longTerm_compress:
  "longTerm (compressMemoriesInternal now s)
     = (if length (shortTerm s) > 50
        then longTerm s @ take 20 (drop 35 (ranked now (shortTerm s)))
        else longTerm s)"
proof (cases "length (shortTerm s) > 50")
  case True
  then show ?thesis by (simp add: compress_large)
next
  case False
  then show ?thesis by (simp add: compress_small)
qed

lemma cyclicCleanup_compress:
  "cyclicCleanup (compressMemoriesInternal now s) = cyclicCleanup s + 1"
proof (cases "length (shortTerm s) > 50")
  case True
  then show ?thesis by (simp add: compress_large)
next
  case False
  then show ?thesis by (simp add: compress_small)
qed

section \<open>Storing\<close>

lemma store_not_duplicate:
  assumes "\<not> isDuplicate stringify s item"
  shows "storeMemory stringify now s item =
           (if length (shortTerm s @ [item]) > 100
            then compressMemoriesInternal now (s\<lparr>shortTerm := shortTerm s @ [item]\<rparr>)
            else s\<lparr>shortTerm := shortTerm s @ [item]\<rparr>)"
  using assms by (simp add: storeMemory_def Let_def)

lemma store_duplicate: "isDuplicate stringify s item \<Longrightarrow> storeMemory stringify now s item = s"
  by (simp add: storeMemory_def)

lemma shortTerm_store_bound:
  assumes "length (shortTerm s) \<le> 100"
  shows "length (shortTerm (storeMemory stringify now s item)) \<le> 100"
proof (cases "isDuplicate stringify s item")
  case True
  then show ?thesis using assms by (simp add: store_duplicate)
next
  case False
  show ?thesis
    using assms by (simp add: store_not_duplicate [OF False] shortTerm_compress_length)
qed

lemma shortTerm_retrieve:
  "shortTerm (snd (retrieveMemories stringify now s query options))
     = map (bump_access (map (\<lambda>(m, relevanceScore). item_id m)
                           (fst (retrieveMemories stringify now s query options))))
         (shortTerm s)"
  by (simp add: retrieveMemories_def Let_def)

lemma longTerm_retrieve:
  "longTerm (snd (retrieveMemories stringify now s query options))
     = map (bump_access (map (\<lambda>(m, relevanceScore). item_id m)
                           (fst (retrieveMemories stringify now s query options))))
         (longTerm s)"
  by (simp add: retrieveMemories_def Let_def)

lemma archive_retrieve:
  "archive (snd (retrieveMemories stringify now s query options)) = archive s"
  by (simp add: retrieveMemories_def Let_def)

lemma shortTerm_step_bound:
  assumes "length (shortTerm s) \<le> 100"
  shows "length (shortTerm (apply_operation stringify s call)) \<le> 100"
proof (cases call)
  case (Pair now op)
  show ?thesis
  proof (cases op)
    case (Store item)
    with Pair assms show ?thesis by (simp add: shortTerm_store_bound)
  next
    case (Retrieve query options)
    with Pair assms show ?thesis by (simp add: shortTerm_retrieve)
  next
    case Compress
    with Pair assms show ?thesis by (simp add: compressMemories_def shortTerm_compress_length)
  next
    case Stats
    with Pair assms show ?thesis by simp
  qed
qed

lemma run_snoc: "run stringify config (ops @ [call]) = apply_operation stringify (run stringify config ops) call"
  by (simp add: run_def)

lemma shortTerm_run_bound: "length (shortTerm (run stringify config ops)) \<le> 100"
proof (induction ops rule: rev_induct)
  case Nil
  show ?case by (simp add: run_def initial_state_def)
next
  case (snoc call ops)
  then show ?case by (simp add: run_snoc shortTerm_step_bound)
qed

section \<open>The example family of records\<close>

lemma split_ws_no_space: "\<forall>c \<in> set s. \<not> isSpace c \<Longrightarrow> split_ws s = [s]"
  by (induction s) simp_all

lemma stringify_word:
  "toLowerCase (JSON_stringify_string (replicate n CHR ''a'')) = CHR 0x22 # replicate n CHR ''a'' @ [CHR 0x22]"
proof -
  have "concat (map json_escape (replicate n CHR ''a'')) = replicate n CHR ''a''"
    by (induction n) (simp_all add: json_escape_def)
  moreover have "map toLowerCase_char (replicate n CHR ''a'') = replicate n CHR ''a''"
    by (simp add: toLowerCase_char_def)
  ultimately show ?thesis
    by (simp add: JSON_stringify_string_def toLowerCase_def toLowerCase_char_def)
qed

lemma demo_similarity:
  assumes "j \<noteq> k"
  shows "calculateSimilarity JSON_stringify_string (content (demo_item j)) (content (demo_item k)) = 0"
proof -
  let ?w = "\<lambda>n. CHR 0x22 # replicate (Suc n) CHR ''a'' @ [CHR 0x22]"
  have ne: "?w j \<noteq> ?w k"
  proof
    assume "?w j = ?w k"
    then have "length (?w j) = length (?w k)" by (rule arg_cong)
    with assms show False by simp
  qed
  have sp: "split_ws (?w n) = [?w n]" for n
    by (rule split_ws_no_space) (auto simp: isSpace_def)
  have s1: "toLowerCase (JSON_stringify_string (content (demo_item n))) = ?w n" for n
    by (simp only: demo_item_def item_of_def stringify_word MemoryItem.simps)
  have "Set.filter (\<lambda>x. x \<in> {?w k}) {?w j} = {}"
    using ne by auto
  then show ?thesis
    unfolding calculateSimilarity_def Let_def s1 sp
    using ne by simp
qed

lemma demo_not_duplicate:
  assumes "n \<le> k"
  shows "\<not> isDuplicate JSON_stringify_string (demo_state n) (demo_item k)"
proof -
  have "calculateSimilarity JSON_stringify_string (content (demo_item j)) (content (demo_item k)) = 0"
    if "j < n" for j
    using that assms by (intro demo_similarity) simp
  then show ?thesis
    by (auto simp: isDuplicate_def list_ex_iff demo_state_def)
qed

lemma demo_state_Suc:
  "(demo_state n)\<lparr>shortTerm := shortTerm (demo_state n) @ [demo_item n]\<rparr> = demo_state (Suc n)"
  by (simp add: demo_state_def)

lemma demo_store:
  assumes "n < 100"
  shows "storeMemory JSON_stringify_string now (demo_state n) (demo_item n) = demo_state (Suc n)"
proof -
  have "\<not> isDuplicate JSON_stringify_string (demo_state n) (demo_item n)"
    by (rule demo_not_duplicate) simp
  moreover have "length (shortTerm (demo_state n)) = n"
    by (simp add: demo_state_def)
  ultimately show ?thesis
    using assms by (simp add: store_not_duplicate demo_state_Suc)
qed

lemma demo_reachable:
  "n \<le> 100 \<Longrightarrow> run JSON_stringify_string default_config (demo_history n) = demo_state n"
proof (induction n)
  case 0
  show ?case
    by (simp add: demo_history_def run_def initial_state_def default_config_def demo_state_def
        or_default_def)
next
  case (Suc n)
  then have "run JSON_stringify_string default_config (demo_history n) = demo_state n"
    by simp
  moreover have "demo_history (Suc n) = demo_history n @ [(0, Store (demo_item n))]"
    by (simp add: demo_history_def)
  ultimately show ?case
    using Suc.prems by (simp add: run_snoc demo_store)
qed

section \<open>Retrieval\<close>

lemma set_slice_subset: "set (slice a b xs) \<subseteq> set xs"
proof -
  have "set (take n (drop k xs)) \<subseteq> set xs" for n k
    using set_take_subset [of n "drop k xs"] set_drop_subset [of k xs] by blast
  then show ?thesis
    by (simp add: slice_def Let_def)
qed

lemma sorted_wrt_slice: "sorted_wrt P xs \<Longrightarrow> sorted_wrt P (slice a b xs)"
  by (simp add: slice_def Let_def sorted_wrt_take sorted_wrt_drop)

lemma length_slice_0: "0 \<le> n \<Longrightarrow> int (length (slice 0 n xs)) \<le> n"
  by (simp add: slice_0)

lemma slice_0_all: "int (length xs) \<le> n \<Longrightarrow> slice 0 n xs = xs"
  by (simp add: slice_def Let_def min_def)

lemma fst_retrieve:
  "fst (retrieveMemories stringify now s query options)
     = slice 0 (case limit options of None \<Rightarrow> 10 | Some l \<Rightarrow> l)
         (scored_sorted stringify now s query options)"
  by (simp add: retrieveMemories_def Let_def)

lemma set_scored_sorted:
  "set (scored_sorted stringify now s query options)
     = {(m, r). m \<in> set (candidates s options) \<and> r = calculateRelevance stringify now query m
                \<and> r \<ge> (case threshold options of None \<Rightarrow> 0.7 | Some t \<Rightarrow> t)}"
proof -
  have c: "shortTerm s @ longTerm s
             @ (if (case includeArchived options of None \<Rightarrow> False | Some b \<Rightarrow> b) then archive s else [])
           = candidates s options"
    by (cases "includeArchived options") (simp_all add: candidates_def)
  show ?thesis
    unfolding scored_sorted_def Let_def c
    by (cases "sortBy options"; cases "the (sortBy options)")
       (auto simp: set_sort_desc)
qed

lemma length_scored_sorted:
  "length (scored_sorted stringify now s query options) \<le> length (candidates s options)"
proof -
  have c: "shortTerm s @ longTerm s
             @ (if (case includeArchived options of None \<Rightarrow> False | Some b \<Rightarrow> b) then archive s else [])
           = candidates s options"
    by (cases "includeArchived options") (simp_all add: candidates_def)
  have "length (filter P (map f (candidates s options))) \<le> length (candidates s options)" for P and f :: "'a MemoryItem \<Rightarrow> 'a MemoryItem \<times> real"
    using length_filter_le [of P "map f (candidates s options)"] by simp
  then show ?thesis
    unfolding scored_sorted_def Let_def c
    by (cases "sortBy options"; cases "the (sortBy options)")
       (simp_all add: length_sort_desc)
qed

lemma sorted_scored_sorted:
  "(case sortBy options of
      Some Recency \<Rightarrow> sorted_wrt (\<lambda>a b. timestamp (fst a) \<ge> timestamp (fst b))
    | Some Importance \<Rightarrow> sorted_wrt (\<lambda>a b. importance (fst a) \<ge> importance (fst b))
    | _ \<Rightarrow> sorted_wrt (\<lambda>a b. snd a \<ge> snd b))
     (scored_sorted stringify now s query options)"
proof -
  have r: "sorted_wrt (\<lambda>a b. timestamp (fst a) \<ge> timestamp (fst b))
             (sort_desc (\<lambda>(memory, relevanceScore). timestamp memory) xs)"
    for xs :: "('a MemoryItem \<times> real) list"
    using sorted_sort_desc [of "\<lambda>(memory, relevanceScore). timestamp memory" xs]
    by (simp add: case_prod_beta)
  have i: "sorted_wrt (\<lambda>a b. importance (fst a) \<ge> importance (fst b))
             (sort_desc (\<lambda>(memory, relevanceScore). importance memory) xs)"
    for xs :: "('a MemoryItem \<times> real) list"
    using sorted_sort_desc [of "\<lambda>(memory, relevanceScore). importance memory" xs]
    by (simp add: case_prod_beta)
  have v: "sorted_wrt (\<lambda>a b. snd a \<ge> snd b)
             (sort_desc (\<lambda>(memory, relevanceScore). relevanceScore) xs)"
    for xs :: "('a MemoryItem \<times> real) list"
    using sorted_sort_desc [of "\<lambda>(memory, relevanceScore). relevanceScore" xs]
    by (simp add: case_prod_beta)
  show ?thesis
  proof (cases "sortBy options")
    case None
    then show ?thesis by (simp add: scored_sorted_def Let_def v)
  next
    case (Some k)
    then show ?thesis by (cases k) (simp_all add: scored_sorted_def Let_def r i v)
  qed
qed

lemmas string_evals =
  JSON_stringify_string_def json_escape_def toLowerCase_def toLowerCase_char_def isSpace_def

lemma relevance_alpha_one: "calculateRelevance JSON_stringify_string 0 ''alpha'' alpha_one = 0.88"
  by (simp add: calculateRelevance_def alpha_one_def item_of_def string_evals Let_def)

lemma relevance_alpha_two: "calculateRelevance JSON_stringify_string 0 ''alpha'' alpha_two = 0.88"
  by (simp add: calculateRelevance_def alpha_two_def item_of_def string_evals Let_def)

lemma relevance_beta_one: "calculateRelevance JSON_stringify_string 0 ''alpha'' beta_one = 0"
  by (simp add: calculateRelevance_def beta_one_def item_of_def string_evals Let_def)

lemma scored_small:
  "limit options = l \<Longrightarrow> threshold options = None \<Longrightarrow> includeArchived options = None \<Longrightarrow> sortBy options = None \<Longrightarrow>
  scored_sorted JSON_stringify_string 0 small_state ''alpha'' options
     = [(alpha_one, 0.88), (alpha_two, 0.88)]"
  by (simp add: scored_sorted_def small_state_def 
      relevance_alpha_one relevance_alpha_two relevance_beta_one sort_desc_def Let_def)

lemma retrieve_small_neg:
  "fst (retrieveMemories JSON_stringify_string 0 small_state ''alpha'' (default_options\<lparr>limit := Some (- 1)\<rparr>))
     = [(alpha_one, 0.88)]"
  by (simp add: fst_retrieve scored_small default_options_def slice_def)

lemma retrieve_small:
  "retrieveMemories JSON_stringify_string 0 small_state ''alpha'' default_options
     = ([(alpha_one, 0.88), (alpha_two, 0.88)],
        small_state\<lparr>shortTerm := [alpha_one\<lparr>accessCount := 1\<rparr>, beta_one], longTerm := [alpha_two\<lparr>accessCount := 1\<rparr>]\<rparr>)"
  apply (simp add: retrieveMemories_def  scored_small default_options_def slice_def Let_def)
  apply (simp add: small_state_def bump_access_def alpha_one_def alpha_two_def beta_one_def item_of_def)
  done

lemma records_after_compress:
  assumes "x \<in> set (all_records (compressMemoriesInternal now s))"
  shows "\<exists>m \<in> set (all_records s). x = m \<or> x = annotate now m"
proof (cases "length (shortTerm s) > 50")
  case True
  have r: "y \<in> set (ranked now (shortTerm s)) \<Longrightarrow> \<exists>m \<in> set (all_records s). y = annotate now m" for y
    by (auto simp: set_ranked all_records_def)
  from assms consider
      "x \<in> set (take 35 (ranked now (shortTerm s)))"
    | "x \<in> set (longTerm s)"
    | "x \<in> set (take 20 (drop 35 (ranked now (shortTerm s))))"
    | "x \<in> set (archive s)"
    | "x \<in> set (drop 55 (ranked now (shortTerm s)))"
    by (auto simp: all_records_def compress_large [OF True])
  then show ?thesis
  proof cases
    case 1
    then have "x \<in> set (ranked now (shortTerm s))" by (rule in_set_takeD)
    with r show ?thesis by blast
  next
    case 2
    then show ?thesis by (auto simp: all_records_def)
  next
    case 3
    then have "x \<in> set (ranked now (shortTerm s))" by (blast dest: in_set_takeD in_set_dropD)
    with r show ?thesis by blast
  next
    case 4
    then show ?thesis by (auto simp: all_records_def)
  next
    case 5
    then have "x \<in> set (ranked now (shortTerm s))" by (rule in_set_dropD)
    with r show ?thesis by blast
  qed
next
  case False
  then have "length (shortTerm s) \<le> 50" by simp
  with assms show ?thesis
    by (auto simp: all_records_def compress_small)
qed

lemma records_after_store:
  assumes "x \<in> set (all_records (storeMemory stringify now s item))"
  shows "\<exists>m \<in> insert item (set (all_records s)). x = m \<or> x = annotate now m"
proof (cases "isDuplicate stringify s item")
  case True
  with assms show ?thesis by (auto simp: store_duplicate)
next
  case False
  let ?s = "s\<lparr>shortTerm := shortTerm s @ [item]\<rparr>"
  have sub: "set (all_records ?s) = insert item (set (all_records s))"
    by (auto simp: all_records_def)
  show ?thesis
  proof (cases "length (shortTerm s @ [item]) > 100")
    case True
    with assms False have "x \<in> set (all_records (compressMemoriesInternal now ?s))"
      by (simp add: store_not_duplicate)
    then have "\<exists>m \<in> set (all_records ?s). x = m \<or> x = annotate now m"
      by (rule records_after_compress)
    then show ?thesis
      unfolding sub .
  next
    case no: False
    with assms False have "x \<in> set (all_records ?s)"
      by (simp add: store_not_duplicate)
    then show ?thesis
      unfolding sub by blast
  qed
qed

lemma bump_twice:
  "bump_access ids2 (bump_access ids m) =
     m\<lparr>accessCount := accessCount m + (if item_id m \<in> set ids then 1 else 0)
                                    + (if item_id m \<in> set ids2 then 1 else 0)\<rparr>"
  by (simp add: bump_access_def)

section \<open>Relevance of a record whose content is the query\<close>

lemma includes_str_infix: "includes_str (ps @ sub @ ss) sub"
proof (induction ps)
  case Nil
  show ?case
  proof (cases "sub @ ss")
    case Nil
    then show ?thesis by simp
  next
    case (Cons a list)
    have "prefix sub (sub @ ss)" by simp
    with Cons show ?thesis by simp
  qed
next
  case (Cons p ps)
  then show ?case by simp
qed

lemma stringify_plain:
  assumes "plain_text s"
  shows "JSON_stringify_string s = CHR 0x22 # s @ [CHR 0x22]"
proof -
  from assms have "concat (map json_escape s) = s"
    by (induction s) (simp_all add: plain_text_def)
  then show ?thesis
    by (simp add: JSON_stringify_string_def)
qed

lemma relevance_lower_bound:
  assumes inc: "includes_str (toLowerCase (stringify (content m))) (toLowerCase query)"
    and imp: "0 \<le> importance m"
    and acc: "0 \<le> accessCount m"
    and age: "now - timestamp m \<le> 1080000000"
  shows "0.7 \<le> calculateRelevance stringify now query m"
proof -
  define base :: real where
    "base = 0.8
       + (if includes_str (toLowerCase (join '' '' (tags m))) (toLowerCase query) then 0.6 else 0)
       + real (length (filter (\<lambda>word. word \<in> set (split_ws (toLowerCase (stringify (content m)))))
                         (split_ws (toLowerCase query))))
           / real (length (split_ws (toLowerCase query))) * 0.4"
  define A where "A = 1 + importance m * 0.2"
  define B where "B = 1 + ln (real_of_int (accessCount m + 1)) * 0.1"
  define C where "C = max 0.5 (1 - real_of_int (now - timestamp m) / (1000 * 60 * 60 * 24) * 0.01)"
  have score: "calculateRelevance stringify now query m = min 1 (base * A * B * C)"
    using inc by (simp add: calculateRelevance_def Let_def base_def A_def B_def C_def)
  have base: "0.8 \<le> base"
    by (simp add: base_def)
  have A: "1 \<le> A"
    using imp by (simp add: A_def)
  have "0 \<le> ln (real_of_int (accessCount m + 1))"
    using acc by (intro ln_ge_zero) simp
  then have B: "1 \<le> B"
    by (simp add: B_def)
  have "real_of_int (now - timestamp m) \<le> 1080000000"
    using age by linarith
  then have "1 - real_of_int (now - timestamp m) / (1000 * 60 * 60 * 24) * 0.01 \<ge> 0.875"
    by simp
  then have C: "0.875 \<le> C"
    by (simp add: C_def)
  have s1: "0.8 * 1 \<le> base * A"
    by (rule mult_mono) (use base A in simp_all)
  then have p1: "0 \<le> base * A"
    by simp
  have s2: "0.8 * 1 * 1 \<le> base * A * B"
    by (rule mult_mono) (use s1 p1 B in simp_all)
  then have p2: "0 \<le> base * A * B"
    by simp
  have "0.8 * 1 * 1 * 0.875 \<le> base * A * B * C"
    by (rule mult_mono) (use s2 p2 C in simp_all)
  then show ?thesis
    by (simp add: score)
qed




lemma filter_sorted_desc_takeWhile:
  "sorted_wrt (\<lambda>a b. key a \<ge> key b) xs
     \<Longrightarrow> filter (\<lambda>x. r \<le> key x) xs = takeWhile (\<lambda>x. r \<le> (key x :: 'k :: linorder)) xs"
proof (induction xs)
  case Nil
  show ?case by simp
next
  case (Cons x xs)
  show ?case
  proof (cases "r \<le> key x")
    case True
    with Cons show ?thesis by simp
  next
    case False
    have "\<not> r \<le> key y" if "y \<in> set xs" for y
    proof -
      from Cons.prems that have "key y \<le> key x" by simp
      with False show ?thesis by simp
    qed
    then have "filter (\<lambda>x. r \<le> key x) xs = []"
      by (simp add: filter_empty_conv)
    with False show ?thesis by simp
  qed
qed

lemma length_filter_sort_desc:
  "length (filter P (sort_desc key xs)) = length (filter P xs)"
proof -
  have "mset (filter P (sort_desc key xs)) = mset (filter P xs)"
    by (simp add: mset_sort_desc)
  then show ?thesis
    by (rule mset_eq_length)
qed

lemma top_of_sorted_in_take:
  assumes sorted: "sorted_wrt (\<lambda>a b. key a \<ge> key b) xs"
    and mem: "x \<in> set xs"
    and few: "length (filter (\<lambda>y. key x \<le> (key y :: 'k :: linorder)) xs) \<le> n"
  shows "x \<in> set (take n xs)"
proof -
  let ?P = "\<lambda>y. key x \<le> key y"
  have eq: "filter ?P xs = takeWhile ?P xs"
    using sorted by (rule filter_sorted_desc_takeWhile)
  from mem have "x \<in> set (filter ?P xs)"
    by simp
  then have "x \<in> set (takeWhile ?P xs)"
    by (simp only: eq)
  then have "x \<in> set (take (length (takeWhile ?P xs)) xs)"
    by (simp only: takeWhile_eq_take [symmetric])
  moreover have "length (takeWhile ?P xs) \<le> n"
    using few by (simp only: eq)
  ultimately show ?thesis
    using set_take_subset_set_take [of "length (takeWhile ?P xs)" n xs] by blast
qed

lemma scored_sorted_threshold_options:
  "scored_sorted stringify now s query threshold_options =
     sort_desc (\<lambda>(memory, relevanceScore). relevanceScore)
       (filter (\<lambda>(memory, relevanceScore). relevanceScore \<ge> 0.7)
          (map (\<lambda>memory. (memory, calculateRelevance stringify now query memory))
             (shortTerm s @ longTerm s)))"
proof -
  have o: "threshold threshold_options = Some 0.7" "includeArchived threshold_options = None"
    "sortBy threshold_options = None"
    by (simp_all add: threshold_options_def default_options_def)
  show ?thesis
    unfolding scored_sorted_def Let_def o
    by (simp only: option.case SortBy.case if_False append_Nil2)
qed

lemma includes_str_set: "includes_str s sub \<Longrightarrow> set sub \<subseteq> set s"
proof (induction s)
  case Nil
  then show ?case by simp
next
  case (Cons c cs)
  from Cons.prems consider "prefix sub (c # cs)" | "includes_str cs sub"
    by auto
  then show ?case
  proof cases
    case 1
    then show ?thesis by (rule set_mono_prefix)
  next
    case 2
    with Cons.IH show ?thesis by auto
  qed
qed

lemma relevance_demo: "calculateRelevance JSON_stringify_string now ''alpha'' (demo_item k) = 0"
proof -
  let ?w = "CHR 0x22 # replicate (Suc k) CHR ''a'' @ [CHR 0x22]"
  have c: "toLowerCase (JSON_stringify_string (content (demo_item k))) = ?w"
    by (simp only: demo_item_def item_of_def stringify_word MemoryItem.simps)
  have q: "toLowerCase ''alpha'' = ''alpha''"
    by (simp add: toLowerCase_def toLowerCase_char_def)
  have t: "tags (demo_item k) = []"
    by (simp add: demo_item_def item_of_def)
  have n1: "\<not> includes_str ?w ''alpha''"
  proof
    assume "includes_str ?w ''alpha''"
    then have "set ''alpha'' \<subseteq> set ?w"
      by (rule includes_str_set)
    then show False by auto
  qed
  have n2: "\<not> includes_str (toLowerCase (join '' '' [])) ''alpha''"
    by (simp add: toLowerCase_def)
  have sp: "split_ws ?w = [?w]"
    by (rule split_ws_no_space) (auto simp: isSpace_def)
  have sq: "split_ws ''alpha'' = [''alpha'']"
    by (rule split_ws_no_space) (simp add: isSpace_def)
  have ne: "''alpha'' \<noteq> ?w"
    by simp
  show ?thesis
    unfolding calculateRelevance_def Let_def c q t sp sq
    using n1 n2 ne by (simp del: replicate_Suc)
qed

section \<open>Overflow in the retention score\<close>

lemma MAX_VALUE_bounds: "1 < MAX_VALUE" "MAX_VALUE < 2 ^ 1024"
  by (simp_all add: MAX_VALUE_def)

lemma exp_710_overflows: "MAX_VALUE < exp (710 :: real)"
proof -
  define y :: real where "y = 710 / 32768"
  have "1 + y + y\<^sup>2 / 2 \<le> exp y"
    by (rule exp_lower_Taylor_quadratic) (simp add: y_def)
  moreover have "0 \<le> 1 + y + y\<^sup>2 / 2"
    by (simp add: y_def)
  ultimately have "(1 + y + y\<^sup>2 / 2) ^ 32 \<le> exp y ^ 32"
    by (rule power_mono)
  moreover have "(2::real) < (1 + y + y\<^sup>2 / 2) ^ 32"
  proof -
    have e: "1 + y + y\<^sup>2 / 2 = 548629577 / 536870912"
      by (simp add: y_def power2_eq_square)
    have b: "(2::real) < (548629577 / 536870912) ^ 32"
      by (simp add: power_divide)
    show ?thesis
      unfolding e by (rule b)
  qed
  ultimately have "2 < exp y ^ 32"
    by linarith
  then have "(2::real) ^ 1024 < (exp y ^ 32) ^ 1024"
    by (intro power_strict_mono) simp_all
  moreover have "(exp y ^ 32) ^ 1024 = exp 710"
  proof -
    have "(exp y ^ 32) ^ 1024 = exp y ^ 32768"
      by (simp add: power_mult [symmetric])
    also have "\<dots> = exp (real 32768 * y)"
      by (rule exp_of_nat_mult [symmetric])
    also have "real 32768 * y = 710"
      by (simp add: y_def)
    finally show ?thesis .
  qed
  ultimately show ?thesis
    using MAX_VALUE_bounds(2) by linarith
qed

lemma number_of_real_small: "\<bar>r\<bar> \<le> MAX_VALUE \<Longrightarrow> number_of_real r = Fin r"
  by (auto simp: number_of_real_def)

lemma number_of_real_big: "MAX_VALUE < r \<Longrightarrow> number_of_real r = PosInf"
  by (simp add: number_of_real_def)

lemma js_times_one: "js_times (number_of_real r) (Fin 1) = number_of_real r"
  using MAX_VALUE_bounds(1) by (auto simp: number_of_real_def)

lemma js_times_times_one: "js_times (js_times x y) (Fin 1) = js_times x y"
  by (cases x; cases y) (simp_all add: js_times_one)

lemma js_exp_cases:
  "js_exp x = (if exp x \<le> MAX_VALUE then Fin (exp x) else PosInf)"
proof -
  have "- MAX_VALUE < exp x"
    using MAX_VALUE_bounds(1) exp_gt_zero [of x] by linarith
  then show ?thesis
    by (auto simp: js_exp_def number_of_real_def)
qed

lemma min_one_big: "MAX_VALUE < r \<Longrightarrow> min 1 r = (1::real)"
  using MAX_VALUE_bounds(1) by simp

section \<open>The claims\<close>

subsection \<open>Retrieval and the access count\<close>

text \<open>
  C1, as the code has it.  A retrieval adds one to \<open>accessCount\<close>, and changes nothing
  else, on exactly the short-term and long-term records of the stored state whose id is
  the id of a returned record; when ids are unique these are the returned short-term and
  long-term records.  It leaves the archive tier as it was, whatever it returns.  A second
  retrieval on the resulting state adds one again for the records it returns.  Every
  record of the state after \<open>compress\<close> or \<open>store\<close> is a record of the state before (or
  the stored item), changed at most in \<open>retentionScore\<close>.  No operation writes
  \<open>lastAccessed\<close>.
\<close>

theorem retrieve_bumps_access_count:
  assumes "result = fst (retrieveMemories stringify now s query options)"
    and "s1 = snd (retrieveMemories stringify now s query options)"
    and "ids = map (\<lambda>(m, relevanceScore). item_id m) result"
    and "result2 = fst (retrieveMemories stringify now2 s1 query2 options2)"
    and "s2 = snd (retrieveMemories stringify now2 s1 query2 options2)"
    and "ids2 = map (\<lambda>(m, relevanceScore). item_id m) result2"
  shows "shortTerm s1 =
           map (\<lambda>m. if item_id m \<in> set ids then m\<lparr>accessCount := accessCount m + 1\<rparr> else m)
             (shortTerm s)
       \<and> longTerm s1 =
           map (\<lambda>m. if item_id m \<in> set ids then m\<lparr>accessCount := accessCount m + 1\<rparr> else m)
             (longTerm s)
       \<and> (distinct (map item_id (all_records s)) \<longrightarrow>
            (\<forall>m \<in> set (shortTerm s @ longTerm s). item_id m \<in> set ids \<longleftrightarrow> m \<in> fst ` set result))
       \<and> shortTerm s2 =
           map (\<lambda>m. m\<lparr>accessCount := accessCount m + (if item_id m \<in> set ids then 1 else 0)
                                                   + (if item_id m \<in> set ids2 then 1 else 0)\<rparr>)
             (shortTerm s)
       \<and> longTerm s2 =
           map (\<lambda>m. m\<lparr>accessCount := accessCount m + (if item_id m \<in> set ids then 1 else 0)
                                                   + (if item_id m \<in> set ids2 then 1 else 0)\<rparr>)
             (longTerm s)
       \<and> (\<forall>x \<in> set (all_records (compressMemories now s)).
             \<exists>m \<in> set (all_records s). x = m \<or> x = annotate now m)
       \<and> (\<forall>x \<in> set (all_records (storeMemory stringify now s item)).
             \<exists>m \<in> insert item (set (all_records s)). x = m \<or> x = annotate now m)
       \<and> (\<forall>m. lastAccessed (annotate now m) = lastAccessed m
               \<and> accessCount (annotate now m) = accessCount m
               \<and> lastAccessed (bump_access ids m) = lastAccessed m)
       \<and> archive s1 = archive s
       \<and> archive s2 = archive s"
proof -
  have ar1: "archive s1 = archive s"
    unfolding assms by (rule archive_retrieve)
  have "archive s2 = archive s1"
    unfolding assms(4,5,6) by (rule archive_retrieve)
  with ar1 have ar2: "archive s2 = archive s"
    by simp
  have b: "bump_access ids = (\<lambda>m. if item_id m \<in> set ids then m\<lparr>accessCount := accessCount m + 1\<rparr> else m)"
    for ids :: "string list"
    by (simp add: bump_access_def fun_eq_iff)
  have st1: "shortTerm s1 = map (bump_access ids) (shortTerm s)"
    and lt1: "longTerm s1 = map (bump_access ids) (longTerm s)"
    unfolding assms by (rule shortTerm_retrieve longTerm_retrieve)+
  have st2: "shortTerm s2 = map (bump_access ids2) (shortTerm s1)"
    and lt2: "longTerm s2 = map (bump_access ids2) (longTerm s1)"
    unfolding assms(4,5,6) by (rule shortTerm_retrieve longTerm_retrieve)+
  have two_st: "shortTerm s2 =
           map (\<lambda>m. m\<lparr>accessCount := accessCount m + (if item_id m \<in> set ids then 1 else 0)
                                                   + (if item_id m \<in> set ids2 then 1 else 0)\<rparr>)
             (shortTerm s)"
    unfolding st2 st1 by (simp only: map_map o_def bump_twice)
  have two_lt: "longTerm s2 =
           map (\<lambda>m. m\<lparr>accessCount := accessCount m + (if item_id m \<in> set ids then 1 else 0)
                                                   + (if item_id m \<in> set ids2 then 1 else 0)\<rparr>)
             (longTerm s)"
    unfolding lt2 lt1 by (simp only: map_map o_def bump_twice)
  have exact: "\<forall>m \<in> set (shortTerm s @ longTerm s). item_id m \<in> set ids \<longleftrightarrow> m \<in> fst ` set result"
    if d: "distinct (map item_id (all_records s))"
  proof
    fix m
    assume m: "m \<in> set (shortTerm s @ longTerm s)"
    then have m_all: "m \<in> set (all_records s)"
      by (auto simp: all_records_def)
    have inj: "inj_on item_id (set (all_records s))"
      using d by (simp add: distinct_map)
    have res_sub: "fst ` set result \<subseteq> set (all_records s)"
    proof -
      have "set result \<subseteq> set (scored_sorted stringify now s query options)"
        unfolding assms(1) fst_retrieve by (rule set_slice_subset)
      then show ?thesis
        by (auto simp: set_scored_sorted candidates_def all_records_def split: if_splits)
    qed
    show "item_id m \<in> set ids \<longleftrightarrow> m \<in> fst ` set result"
    proof
      assume "item_id m \<in> set ids"
      then obtain m' r where mr: "(m', r) \<in> set result" "item_id m' = item_id m"
        by (auto simp: assms(3))
      then have "m' \<in> set (all_records s)"
        using res_sub by force
      with inj m_all mr(2) have "m' = m"
        by (auto dest: inj_onD)
      with mr(1) show "m \<in> fst ` set result"
        by force
    next
      assume "m \<in> fst ` set result"
      then show "item_id m \<in> set ids"
        by (force simp: assms(3))
    qed
  qed
  have co: "\<forall>x \<in> set (all_records (compressMemories now s)).
             \<exists>m \<in> set (all_records s). x = m \<or> x = annotate now m"
    unfolding compressMemories_def using records_after_compress by blast
  have sto: "\<forall>x \<in> set (all_records (storeMemory stringify now s item)).
             \<exists>m \<in> insert item (set (all_records s)). x = m \<or> x = annotate now m"
    using records_after_store by blast
  have fields: "\<forall>m. lastAccessed (annotate now m) = lastAccessed m
               \<and> accessCount (annotate now m) = accessCount m
               \<and> lastAccessed (bump_access ids m) = lastAccessed m"
    by (simp add: annotate_def bump_access_def)
  from st1 lt1 exact two_st two_lt co sto fields ar1 ar2 show ?thesis
    unfolding b by blast
qed

theorem retrieve_bumps_access_count_witness:
  "distinct (map item_id (all_records small_state))
   \<and> alpha_one \<in> set (shortTerm small_state @ longTerm small_state)
   \<and> alpha_one \<in> fst ` set (fst (retrieveMemories JSON_stringify_string 0 small_state ''alpha'' default_options))
   \<and> item_id alpha_one \<in> set (map (\<lambda>(m, relevanceScore). item_id m)
          (fst (retrieveMemories JSON_stringify_string 0 small_state ''alpha'' default_options)))
   \<and> shortTerm (snd (retrieveMemories JSON_stringify_string 0 small_state ''alpha'' default_options))
       = [alpha_one\<lparr>accessCount := 1\<rparr>, beta_one]
   \<and> longTerm (snd (retrieveMemories JSON_stringify_string 0 small_state ''alpha'' default_options))
       = [alpha_two\<lparr>accessCount := 1\<rparr>]
   \<and> archive (snd (retrieveMemories JSON_stringify_string 0 small_state ''alpha'' default_options))
       = archive small_state"
proof -
  let ?r = "retrieveMemories JSON_stringify_string 0 small_state ''alpha'' default_options"
  note t = retrieve_bumps_access_count [where s = small_state and stringify = JSON_stringify_string
      and now = 0 and query = "''alpha''" and options = default_options, OF refl refl refl refl refl refl]
  have d: "distinct (map item_id (all_records small_state))"
    by (simp add: all_records_def small_state_def alpha_one_def alpha_two_def beta_one_def item_of_def)
  have m: "alpha_one \<in> set (shortTerm small_state @ longTerm small_state)"
    by (simp add: small_state_def)
  have r: "alpha_one \<in> fst ` set (fst ?r)"
    by (simp add: retrieve_small)
  have i: "item_id alpha_one \<in> set (map (\<lambda>(m, relevanceScore). item_id m) (fst ?r))"
    using bspec [OF mp [OF t [THEN conjunct2, THEN conjunct2, THEN conjunct1] d] m] r by simp
  have st: "shortTerm (snd ?r) = [alpha_one\<lparr>accessCount := 1\<rparr>, beta_one]"
    using t [THEN conjunct1] unfolding retrieve_small
    by (simp add: small_state_def alpha_one_def alpha_two_def beta_one_def item_of_def)
  have lt: "longTerm (snd ?r) = [alpha_two\<lparr>accessCount := 1\<rparr>]"
    using t [THEN conjunct2, THEN conjunct1] unfolding retrieve_small
    by (simp add: small_state_def alpha_one_def alpha_two_def beta_one_def item_of_def)
  have ar: "archive (snd ?r) = archive small_state"
    using t [THEN conjunct2, THEN conjunct2, THEN conjunct2, THEN conjunct2, THEN conjunct2,
             THEN conjunct2, THEN conjunct2, THEN conjunct2, THEN conjunct1] .
  from d m r i st lt ar show ?thesis
    by blast
qed

text \<open>
  The claim as written has the retrieval set \<open>lastAccessedAt\<close> to the current time on the
  records it returns.  Both matching records are returned, and their stored copies still
  have no \<open>lastAccessed\<close>.
\<close>

theorem retrieve_bumps_access_count_counterexample:
  "map fst (fst (retrieveMemories JSON_stringify_string 0 small_state ''alpha'' default_options))
     = [alpha_one, alpha_two]
   \<and> map lastAccessed
         (shortTerm (snd (retrieveMemories JSON_stringify_string 0 small_state ''alpha'' default_options)))
       = [None, None]
   \<and> map lastAccessed
         (longTerm (snd (retrieveMemories JSON_stringify_string 0 small_state ''alpha'' default_options)))
       = [None]"
  by (simp add: retrieve_small alpha_one_def alpha_two_def beta_one_def item_of_def)

subsection \<open>Compression below the threshold\<close>

text \<open>
  C2, as the code has it.  With 50 or fewer short-term records \<open>compress()\<close> leaves
  \<open>shortTerm\<close>, \<open>longTerm\<close> and \<open>compressionRatio\<close> as they were, but it still sweeps the
  archive and still adds one to \<open>cyclicCleanup\<close>.
\<close>

theorem compress_below_threshold:
  assumes "length (shortTerm s) \<le> 50"
  shows "compressMemories now s =
           s\<lparr> archive := filter (archive_keep now) (archive s),
              cyclicCleanup := cyclicCleanup s + 1 \<rparr>"
  using assms by (simp add: compressMemories_def compress_small)

theorem compress_below_threshold_witness:
  "length (shortTerm (demo_state 50)) \<le> 50
   \<and> compressMemories 0 (demo_state 50) =
       (demo_state 50)\<lparr> archive := filter (archive_keep 0) (archive (demo_state 50)),
                         cyclicCleanup := cyclicCleanup (demo_state 50) + 1 \<rparr>"
proof -
  have h: "length (shortTerm (demo_state 50)) \<le> 50"
    by (simp add: demo_state_def)
  from compress_below_threshold [OF h, of 0] h show ?thesis
    by blast
qed

text \<open>
  The claim as written (nothing changes, the counter included) fails on a store with
  exactly 50 short-term records: the counter goes from 0 to 1.
\<close>

theorem compress_below_threshold_counterexample:
  "length (shortTerm (demo_state 50)) = 50
   \<and> cyclicCleanup (demo_state 50) = 0
   \<and> cyclicCleanup (compressMemories 0 (demo_state 50)) = 1"
proof -
  have "length (shortTerm (demo_state 50)) \<le> 50"
    by (simp add: demo_state_def)
  then have "compressMemoriesInternal 0 (demo_state 50) =
           (demo_state 50)\<lparr> archive := filter (archive_keep 0) (archive (demo_state 50)),
                         cyclicCleanup := cyclicCleanup (demo_state 50) + 1 \<rparr>"
    by (rule compress_small)
  then show ?thesis
    by (simp add: compressMemories_def demo_state_def)
qed

subsection \<open>Promotion order\<close>



subsection \<open>Duplicates\<close>

text \<open>
  C4.  When some short-term record's content has similarity above 0.9 with the item's
  content, and in particular when the two serialise to the same text (the similarity is
  then 1), \<open>store(item)\<close> returns the state it was given: no tier changes, and nothing is
  signalled.
\<close>

theorem store_duplicate_is_noop:
  assumes "existing \<in> set (shortTerm s)"
    and "calculateSimilarity stringify (content existing) (content item) > 0.9
         \<or> stringify (content existing) = stringify (content item)"
  shows "storeMemory stringify now s item = s
         \<and> (stringify (content existing) = stringify (content item)
              \<longrightarrow> calculateSimilarity stringify (content existing) (content item) = 1)"
proof -
  have same: "calculateSimilarity stringify (content existing) (content item) = 1"
    if "stringify (content existing) = stringify (content item)"
    using that by (simp add: calculateSimilarity_def)
  from assms(2) same have "calculateSimilarity stringify (content existing) (content item) > 0.9"
    by auto
  with assms(1) have "isDuplicate stringify s item"
    by (auto simp: isDuplicate_def list_ex_iff)
  then have "storeMemory stringify now s item = s"
    by (simp add: storeMemory_def)
  with same show ?thesis by blast
qed

theorem store_duplicate_is_noop_witness:
  "demo_item 0 \<in> set (shortTerm (demo_state 3))
   \<and> JSON_stringify_string (content (demo_item 0))
       = JSON_stringify_string (content (item_of ''new'' ''a'' 5 0.2))
   \<and> storeMemory JSON_stringify_string 7 (demo_state 3) (item_of ''new'' ''a'' 5 0.2) = demo_state 3
   \<and> calculateSimilarity JSON_stringify_string (content (demo_item 0))
       (content (item_of ''new'' ''a'' 5 0.2)) = 1"
proof -
  have h1: "demo_item 0 \<in> set (shortTerm (demo_state 3))"
    by (simp add: demo_state_def upt_rec)
  have h2: "JSON_stringify_string (content (demo_item 0))
       = JSON_stringify_string (content (item_of ''new'' ''a'' 5 0.2))"
    by (simp add: demo_item_def item_of_def)
  from store_duplicate_is_noop [OF h1 disjI2, OF h2, of 7] h1 h2 show ?thesis
    by blast
qed

subsection \<open>The archive sweep\<close>

text \<open>
  C5, as the code has it.  After a compression cycle an archive record is still in the
  archive exactly when it is less than 30 days old (its timestamp is later than now minus
  30 days) or its importance is above 0.8.  A record exactly 30 days old is swept.
\<close>

theorem archive_sweep:
  assumes "m \<in> set (archive s)"
  shows "m \<in> set (archive (compressMemories now s))
           \<longleftrightarrow> timestamp m > now - 30 * day \<or> importance m > 0.8"
proof -
  obtain added where
    a: "archive (compressMemoriesInternal now s) = filter (archive_keep now) (archive s @ added)"
    using archive_after_compress by blast
  have "m \<in> set (archive (compressMemories now s)) \<longleftrightarrow> archive_keep now m"
    using assms by (auto simp: compressMemories_def a)
  then show ?thesis
    by (simp add: archive_keep_def day_def)
qed

theorem archive_sweep_witness:
  "aged_05 \<in> set (archive (archive_state [aged_05, aged_09]))
   \<and> aged_09 \<in> set (archive (archive_state [aged_05, aged_09]))
   \<and> aged_05 \<notin> set (archive (compressMemories (31 * day) (archive_state [aged_05, aged_09])))
   \<and> aged_09 \<in> set (archive (compressMemories (31 * day) (archive_state [aged_05, aged_09])))"
proof -
  have h5: "aged_05 \<in> set (archive (archive_state [aged_05, aged_09]))"
    and h9: "aged_09 \<in> set (archive (archive_state [aged_05, aged_09]))"
    by (simp_all add: archive_state_def)
  have "aged_05 \<notin> set (archive (compressMemories (31 * day) (archive_state [aged_05, aged_09])))"
    using archive_sweep [OF h5, of "31 * day"] by (simp add: aged_05_def item_of_def day_def)
  moreover
  have "aged_09 \<in> set (archive (compressMemories (31 * day) (archive_state [aged_05, aged_09])))"
    using archive_sweep [OF h9, of "31 * day"] by (simp add: aged_09_def item_of_def day_def)
  ultimately show ?thesis
    using h5 h9 by blast
qed

text \<open>
  The claim as written keeps every record that is at most 30 days old.  A record of
  importance 0.5 that is exactly 30 days old is removed.
\<close>

theorem archive_sweep_counterexample:
  "30 * day - timestamp aged_05 \<le> 30 * day
   \<and> aged_05 \<in> set (archive (archive_state [aged_05]))
   \<and> archive (compressMemories (30 * day) (archive_state [aged_05])) = []"
proof -
  have "length (shortTerm (archive_state [aged_05])) \<le> 50"
    by (simp add: archive_state_def)
  then have "compressMemoriesInternal (30 * day) (archive_state [aged_05]) =
      (archive_state [aged_05])\<lparr> archive := filter (archive_keep (30 * day)) (archive (archive_state [aged_05])),
         cyclicCleanup := cyclicCleanup (archive_state [aged_05]) + 1 \<rparr>"
    by (rule compress_small)
  then show ?thesis
    by (simp add: compressMemories_def archive_state_def archive_keep_def aged_05_def item_of_def day_def)
qed

subsection \<open>A record whose content is the query\<close>

text \<open>
  C6, as the code has it.  A short-term or long-term record whose content is the query
  string itself (a string that \<open>JSON.stringify\<close> does not escape), with non-negative
  importance and access count and at most 12.5 days old, has relevance at least 0.7 and
  so passes the threshold of \<open>retrieve(query, {threshold: 0.7})\<close>; the call returns it
  whenever at most 10 (the default limit) short-term and long-term records, itself
  included, have a relevance at least as high as its own.
\<close>

theorem exact_content_is_retrieved:
  assumes "m \<in> set (shortTerm s) \<union> set (longTerm s)"
    and "content m = query"
    and "plain_text query"
    and "0 \<le> importance m"
    and "0 \<le> accessCount m"
    and "now - timestamp m \<le> 1080000000"
    and "length (filter (\<lambda>m'. calculateRelevance JSON_stringify_string now query m
                                 \<le> calculateRelevance JSON_stringify_string now query m')
                   (shortTerm s @ longTerm s)) \<le> 10"
  shows "0.7 \<le> calculateRelevance JSON_stringify_string now query m
       \<and> (m, calculateRelevance JSON_stringify_string now query m)
             \<in> set (scored_sorted JSON_stringify_string now s query threshold_options)
       \<and> (m, calculateRelevance JSON_stringify_string now query m)
             \<in> set (fst (retrieveMemories JSON_stringify_string now s query threshold_options))"
proof -
  let ?rel = "calculateRelevance JSON_stringify_string now query"
  let ?xs = "scored_sorted JSON_stringify_string now s query threshold_options"
  let ?scored = "filter (\<lambda>(memory, relevanceScore). relevanceScore \<ge> 0.7)
          (map (\<lambda>memory. (memory, ?rel memory)) (shortTerm s @ longTerm s))"
  have "toLowerCase (JSON_stringify_string (content m))
          = [CHR 0x22] @ toLowerCase query @ [CHR 0x22]"
    using assms(2,3) by (simp add: stringify_plain toLowerCase_def toLowerCase_char_def)
  then have "includes_str (toLowerCase (JSON_stringify_string (content m))) (toLowerCase query)"
    by (simp only: includes_str_infix)
  then have rel: "0.7 \<le> ?rel m"
    using assms(4,5,6) by (rule relevance_lower_bound)
  have cand: "candidates s threshold_options = shortTerm s @ longTerm s"
    by (simp add: candidates_def threshold_options_def default_options_def)
  have thr: "threshold threshold_options = Some 0.7" and lim: "limit threshold_options = None"
    and srt: "sortBy threshold_options = None"
    by (simp_all add: threshold_options_def default_options_def)
  have mem: "(m, ?rel m) \<in> set ?xs"
    using assms(1) rel by (simp add: set_scored_sorted cand thr)
  have sorted: "sorted_wrt (\<lambda>a b. snd a \<ge> snd b) ?xs"
    using sorted_scored_sorted [of threshold_options JSON_stringify_string now s query]
    by (simp add: srt)
  have "length (filter (\<lambda>y. snd (m, ?rel m) \<le> snd y) ?xs)
          = length (filter (\<lambda>y. ?rel m \<le> snd y) ?scored)"
    by (simp add: scored_sorted_threshold_options length_filter_sort_desc)
  also have "filter (\<lambda>y. ?rel m \<le> snd y) ?scored
          = map (\<lambda>memory. (memory, ?rel memory))
              (filter (\<lambda>m'. ?rel m \<le> ?rel m') (shortTerm s @ longTerm s))"
  proof -
    have "(0.7 \<le> ?rel m' \<and> ?rel m \<le> ?rel m') = (?rel m \<le> ?rel m')" for m'
      using rel by auto
    then show ?thesis
      by (simp add: filter_map o_def conj_commute del: filter_append map_append)
  qed
  finally have few: "length (filter (\<lambda>y. snd (m, ?rel m) \<le> snd y) ?xs) \<le> 10"
    using assms(7) by simp
  have "(m, ?rel m) \<in> set (take 10 ?xs)"
    using sorted mem few by (rule top_of_sorted_in_take)
  then have "(m, ?rel m) \<in> set (fst (retrieveMemories JSON_stringify_string now s query threshold_options))"
    by (simp add: fst_retrieve lim slice_0)
  with rel mem show ?thesis
    by blast
qed

theorem exact_content_is_retrieved_witness:
  "alpha_one \<in> set (shortTerm crowded_state) \<union> set (longTerm crowded_state)
   \<and> length (shortTerm crowded_state) = 12
   \<and> content alpha_one = ''alpha''
   \<and> plain_text ''alpha''
   \<and> 0 \<le> importance alpha_one \<and> 0 \<le> accessCount alpha_one
   \<and> 0 - timestamp alpha_one \<le> 1080000000
   \<and> length (filter (\<lambda>m'. calculateRelevance JSON_stringify_string 0 ''alpha'' alpha_one
                              \<le> calculateRelevance JSON_stringify_string 0 ''alpha'' m')
                (shortTerm crowded_state @ longTerm crowded_state)) \<le> 10
   \<and> 0.7 \<le> calculateRelevance JSON_stringify_string 0 ''alpha'' alpha_one
   \<and> (alpha_one, calculateRelevance JSON_stringify_string 0 ''alpha'' alpha_one)
         \<in> set (fst (retrieveMemories JSON_stringify_string 0 crowded_state ''alpha'' threshold_options))"
proof -
  have h1: "alpha_one \<in> set (shortTerm crowded_state) \<union> set (longTerm crowded_state)"
    and l: "length (shortTerm crowded_state) = 12"
    by (simp_all add: crowded_state_def)
  have h2: "content alpha_one = ''alpha''"
    by (simp add: alpha_one_def item_of_def)
  have h3: "plain_text ''alpha''"
    by (simp add: plain_text_def json_escape_def)
  have h4: "0 \<le> importance alpha_one" and h5: "0 \<le> accessCount alpha_one"
    and h6: "0 - timestamp alpha_one \<le> 1080000000"
    by (simp_all add: alpha_one_def item_of_def)
  have "filter (\<lambda>m'. calculateRelevance JSON_stringify_string 0 ''alpha'' alpha_one
                              \<le> calculateRelevance JSON_stringify_string 0 ''alpha'' m')
                (map demo_item [0..<11]) = []"
    by (simp add: filter_empty_conv relevance_demo relevance_alpha_one)
  then have h7: "length (filter (\<lambda>m'. calculateRelevance JSON_stringify_string 0 ''alpha'' alpha_one
                              \<le> calculateRelevance JSON_stringify_string 0 ''alpha'' m')
                (shortTerm crowded_state @ longTerm crowded_state)) \<le> 10"
    by (simp add: crowded_state_def)
  from exact_content_is_retrieved [OF h1 h2 h3 h4 h5 h6 h7] h1 l h2 h3 h4 h5 h6 h7
  show ?thesis by blast
qed

text \<open>
  The claim as written has the score stay at or above 0.7.  For a record 50 days old the
  recency factor is 0.5, the score is 0.4, and the retrieval returns nothing.
\<close>

theorem exact_content_is_retrieved_counterexample:
  "shortTerm old_state = [item_of ''r1'' ''alpha'' 0 0]
   \<and> content (item_of ''r1'' ''alpha'' 0 0) = ''alpha''
   \<and> calculateRelevance JSON_stringify_string (50 * day) ''alpha'' (item_of ''r1'' ''alpha'' 0 0) = 0.4
   \<and> fst (retrieveMemories JSON_stringify_string (50 * day) old_state ''alpha'' threshold_options) = []"
proof -
  have rel: "calculateRelevance JSON_stringify_string (50 * day) ''alpha'' (item_of ''r1'' ''alpha'' 0 0) = 0.4"
    by (simp add: calculateRelevance_def item_of_def string_evals Let_def day_def)
  have "scored_sorted JSON_stringify_string (50 * day) old_state ''alpha'' threshold_options = []"
    by (simp add: scored_sorted_def old_state_def threshold_options_def default_options_def rel
        sort_desc_def Let_def)
  then have "fst (retrieveMemories JSON_stringify_string (50 * day) old_state ''alpha'' threshold_options) = []"
    by (simp add: fst_retrieve slice_def)
  with rel show ?thesis
    by (simp add: old_state_def item_of_def)
qed

subsection \<open>The returned list\<close>

text \<open>
  C7, as the code has it.  Every returned record comes from \<open>shortTerm\<close> or \<open>longTerm\<close>
  (or \<open>archive\<close>, when \<open>includeArchived\<close> is true), carries its relevance score, which is
  at least the threshold, and the list is in the order of \<open>sortBy\<close>: relevance descending,
  newest timestamp first, or importance descending.  It has at most \<open>limit\<close> records when
  \<open>limit\<close> is not negative.
\<close>

theorem retrieve_result_shape:
  assumes "result = fst (retrieveMemories stringify now s query options)"
    and "bound = (case limit options of None \<Rightarrow> 10 | Some l \<Rightarrow> l)"
    and "thr = (case threshold options of None \<Rightarrow> 0.7 | Some t \<Rightarrow> t)"
  shows "(0 \<le> bound \<longrightarrow> int (length result) \<le> bound)
       \<and> (\<forall>(m, r) \<in> set result.
             m \<in> set (shortTerm s) \<union> set (longTerm s)
                   \<union> (if includeArchived options = Some True then set (archive s) else {})
             \<and> r = calculateRelevance stringify now query m \<and> r \<ge> thr)
       \<and> (case sortBy options of
             Some Recency \<Rightarrow> sorted_wrt (\<lambda>a b. timestamp (fst a) \<ge> timestamp (fst b))
           | Some Importance \<Rightarrow> sorted_wrt (\<lambda>a b. importance (fst a) \<ge> importance (fst b))
           | _ \<Rightarrow> sorted_wrt (\<lambda>a b. snd a \<ge> snd b)) result"
proof -
  have res: "result = slice 0 bound (scored_sorted stringify now s query options)"
    by (simp add: assms fst_retrieve)
  have size: "0 \<le> bound \<longrightarrow> int (length result) \<le> bound"
    by (simp add: res length_slice_0)
  have "set result \<subseteq> set (scored_sorted stringify now s query options)"
    unfolding res by (rule set_slice_subset)
  then have members: "\<forall>(m, r) \<in> set result.
             m \<in> set (shortTerm s) \<union> set (longTerm s)
                   \<union> (if includeArchived options = Some True then set (archive s) else {})
             \<and> r = calculateRelevance stringify now query m \<and> r \<ge> thr"
    by (auto simp: set_scored_sorted candidates_def assms(3) split: if_splits)
  have order: "(case sortBy options of
             Some Recency \<Rightarrow> sorted_wrt (\<lambda>a b. timestamp (fst a) \<ge> timestamp (fst b))
           | Some Importance \<Rightarrow> sorted_wrt (\<lambda>a b. importance (fst a) \<ge> importance (fst b))
           | _ \<Rightarrow> sorted_wrt (\<lambda>a b. snd a \<ge> snd b)) result"
    using sorted_scored_sorted [of options stringify now s query]
    unfolding res
    by (auto split: option.splits SortBy.splits intro: sorted_wrt_slice)
  from size members order show ?thesis
    by blast
qed

theorem retrieve_result_shape_witness:
  "(0::int) \<le> 10
   \<and> int (length (fst (retrieveMemories JSON_stringify_string 0 small_state ''alpha'' default_options))) \<le> 10
   \<and> (alpha_two, 0.88) \<in> set (fst (retrieveMemories JSON_stringify_string 0 small_state ''alpha'' default_options))
   \<and> alpha_two \<in> set (shortTerm small_state) \<union> set (longTerm small_state)
   \<and> 0.88 = calculateRelevance JSON_stringify_string 0 ''alpha'' alpha_two
   \<and> (0.7::real) \<le> 0.88
   \<and> sorted_wrt (\<lambda>a b. snd a \<ge> snd b)
         (fst (retrieveMemories JSON_stringify_string 0 small_state ''alpha'' default_options))"
proof -
  let ?result = "fst (retrieveMemories JSON_stringify_string 0 small_state ''alpha'' default_options)"
  have b: "(10::int) = (case limit default_options of None \<Rightarrow> 10 | Some l \<Rightarrow> l)"
    and t: "(0.7::real) = (case threshold default_options of None \<Rightarrow> 0.7 | Some t \<Rightarrow> t)"
    by (simp_all add: default_options_def)
  note shape = retrieve_result_shape [OF refl b t, of JSON_stringify_string 0 small_state "''alpha''"]
  have mem: "(alpha_two, 0.88) \<in> set ?result"
    by (simp add: retrieve_small)
  have size: "int (length ?result) \<le> 10"
    using shape [THEN conjunct1] by simp
  have one: "alpha_two \<in> set (shortTerm small_state) \<union> set (longTerm small_state)
                   \<union> (if includeArchived default_options = Some True then set (archive small_state) else {})
             \<and> 0.88 = calculateRelevance JSON_stringify_string 0 ''alpha'' alpha_two \<and> (0.7::real) \<le> 0.88"
    using bspec [OF shape [THEN conjunct2, THEN conjunct1] mem] by simp
  then have two: "alpha_two \<in> set (shortTerm small_state) \<union> set (longTerm small_state)"
    by (simp add: default_options_def)
  have order: "sorted_wrt (\<lambda>a b. snd a \<ge> snd b) ?result"
    using shape [THEN conjunct2, THEN conjunct2] by (simp add: default_options_def)
  from size mem one two order show ?thesis
    by simp
qed

text \<open>
  The claim as written bounds the size of every returned list by \<open>limit\<close>.  With
  \<open>limit = -1\<close> the call \<open>slice(0, -1)\<close> drops the last of the two matches and returns
  one record, which is more than \<open>limit\<close>.
\<close>

theorem retrieve_result_shape_counterexample:
  "limit (default_options\<lparr>limit := Some (- 1)\<rparr>) = Some (- 1)
   \<and> fst (retrieveMemories JSON_stringify_string 0 small_state ''alpha''
            (default_options\<lparr>limit := Some (- 1)\<rparr>)) = [(alpha_one, 0.88)]
   \<and> \<not> int (length (fst (retrieveMemories JSON_stringify_string 0 small_state ''alpha''
                           (default_options\<lparr>limit := Some (- 1)\<rparr>)))) \<le> - 1"
  by (simp add: retrieve_small_neg)

subsection \<open>Storing and the size of the short-term tier\<close>

text \<open>
  C8.  Storing an item that is no duplicate appends it to \<open>shortTerm\<close>; the compression
  routine runs inside the same call exactly when the list is then longer than 100 (seen
  in the result and in the cycle counter); and in every state the store can be in, a
  \<open>store\<close> call returns with at most 100 short-term records.
\<close>

theorem store_appends_and_bounds:
  assumes "s = run stringify config ops"
  shows "(\<not> isDuplicate stringify s item \<longrightarrow>
            storeMemory stringify now s item =
              (if length (shortTerm s @ [item]) > 100
               then compressMemoriesInternal now (s\<lparr>shortTerm := shortTerm s @ [item]\<rparr>)
               else s\<lparr>shortTerm := shortTerm s @ [item]\<rparr>)
            \<and> cyclicCleanup (storeMemory stringify now s item) =
                cyclicCleanup s + (if length (shortTerm s @ [item]) > 100 then 1 else 0))
         \<and> length (shortTerm (storeMemory stringify now s item)) \<le> 100"
proof -
  have "length (shortTerm s) \<le> 100"
    unfolding assms by (rule shortTerm_run_bound)
  then have "length (shortTerm (storeMemory stringify now s item)) \<le> 100"
    by (rule shortTerm_store_bound)
  moreover have "cyclicCleanup (storeMemory stringify now s item) =
                cyclicCleanup s + (if length (shortTerm s @ [item]) > 100 then 1 else 0)"
    if "\<not> isDuplicate stringify s item"
    by (simp add: store_not_duplicate [OF that] cyclicCleanup_compress)
  ultimately show ?thesis
    using store_not_duplicate by blast
qed

theorem store_appends_and_bounds_witness:
  "demo_state 100 = run JSON_stringify_string default_config (demo_history 100)
   \<and> \<not> isDuplicate JSON_stringify_string (demo_state 100) (demo_item 100)
   \<and> storeMemory JSON_stringify_string 0 (demo_state 100) (demo_item 100) =
       compressMemoriesInternal 0
         ((demo_state 100)\<lparr>shortTerm := shortTerm (demo_state 100) @ [demo_item 100]\<rparr>)
   \<and> cyclicCleanup (storeMemory JSON_stringify_string 0 (demo_state 100) (demo_item 100)) = 1
   \<and> length (shortTerm (storeMemory JSON_stringify_string 0 (demo_state 100) (demo_item 100))) \<le> 100"
proof -
  have h: "demo_state 100 = run JSON_stringify_string default_config (demo_history 100)"
    by (simp add: demo_reachable)
  have d: "\<not> isDuplicate JSON_stringify_string (demo_state 100) (demo_item 100)"
    by (rule demo_not_duplicate) simp
  have g: "length (shortTerm (demo_state 100) @ [demo_item 100]) > 100"
    and z: "cyclicCleanup (demo_state 100) = 0"
    by (simp_all add: demo_state_def)
  note t = store_appends_and_bounds [OF h, of "demo_item 100" 0]
  from t d have a: "storeMemory JSON_stringify_string 0 (demo_state 100) (demo_item 100) =
              (if length (shortTerm (demo_state 100) @ [demo_item 100]) > 100
               then compressMemoriesInternal 0
                      ((demo_state 100)\<lparr>shortTerm := shortTerm (demo_state 100) @ [demo_item 100]\<rparr>)
               else (demo_state 100)\<lparr>shortTerm := shortTerm (demo_state 100) @ [demo_item 100]\<rparr>)"
    and b: "cyclicCleanup (storeMemory JSON_stringify_string 0 (demo_state 100) (demo_item 100)) =
              cyclicCleanup (demo_state 100)
                + (if length (shortTerm (demo_state 100) @ [demo_item 100]) > 100 then 1 else 0)"
    and c: "length (shortTerm (storeMemory JSON_stringify_string 0 (demo_state 100) (demo_item 100))) \<le> 100"
    by blast+
  have a': "storeMemory JSON_stringify_string 0 (demo_state 100) (demo_item 100) =
       compressMemoriesInternal 0
         ((demo_state 100)\<lparr>shortTerm := shortTerm (demo_state 100) @ [demo_item 100]\<rparr>)"
    using a g by simp
  have b': "cyclicCleanup (storeMemory JSON_stringify_string 0 (demo_state 100) (demo_item 100)) = 1"
    using b g z by simp
  from h d a' b' c show ?thesis
    by blast
qed

subsection \<open>The retention score\<close>

text \<open>
  C9, as the code has it.  The retention score is
  \<open>min(1, (importance + min(0.3, accessCount * 0.05)) * e^(-ageInDays * 0.1) * t)\<close>
  evaluated in double arithmetic, with \<open>t = 1.5\<close> when some tag is one of critical,
  important, user-preference, system-config and \<open>t = 1\<close> otherwise.  For importance in
  [0, 1] and a non-negative access count: when \<open>e^(-ageInDays * 0.1)\<close> is a finite double
  (always, for a record not dated after now) the result is the real value of the formula
  and lies in [0, 1]; when it overflows to \<open>Infinity\<close>, the result is 1, except for
  importance 0 and access count 0, where it is \<open>NaN\<close>.
\<close>

theorem retention_score_formula:
  "calculateRetentionScore_double m now =
     js_min (Fin 1)
       (js_times
          (js_times (js_plus (Fin (importance m)) (Fin (min 0.3 (real_of_int (accessCount m) * 0.05))))
             (js_exp (- (real_of_int (now - timestamp m) / 86400000) * 0.1)))
          (Fin (if \<exists>tag \<in> set (tags m).
                     tag \<in> {''critical'', ''important'', ''user-preference'', ''system-config''}
                then 1.5 else 1)))
   \<and> calculateRetentionScore m now =
       min 1 ((importance m + min 0.3 (real_of_int (accessCount m) * 0.05))
              * exp (- (real_of_int (now - timestamp m) / 86400000) * 0.1)
              * (if \<exists>tag \<in> set (tags m).
                      tag \<in> {''critical'', ''important'', ''user-preference'', ''system-config''}
                 then 1.5 else 1))
   \<and> (0 \<le> importance m \<and> importance m \<le> 1 \<and> 0 \<le> accessCount m \<longrightarrow>
        (if exp (- (real_of_int (now - timestamp m) / 86400000) * 0.1) \<le> MAX_VALUE
         then calculateRetentionScore_double m now = Fin (calculateRetentionScore m now)
              \<and> 0 \<le> calculateRetentionScore m now \<and> calculateRetentionScore m now \<le> 1
         else calculateRetentionScore_double m now
                = (if importance m = 0 \<and> accessCount m = 0 then NaN else Fin 1)))
   \<and> (timestamp m \<le> now \<longrightarrow>
        exp (- (real_of_int (now - timestamp m) / 86400000) * 0.1) \<le> MAX_VALUE)"
proof -
  define base where "base = importance m + min 0.3 (real_of_int (accessCount m) * 0.05)"
  define x where "x = - (real_of_int (now - timestamp m) / 86400000) * 0.1"
  define tagged where "tagged \<longleftrightarrow> list_ex (\<lambda>tag. tag \<in> set importantTags) (tags m)"
  define t :: real where "t = (if tagged then 1.5 else 1)"
  have tagged_iff: "tagged \<longleftrightarrow> (\<exists>tag \<in> set (tags m).
                     tag \<in> {''critical'', ''important'', ''user-preference'', ''system-config''})"
    by (simp add: tagged_def importantTags_def list_ex_iff)
  have dbl: "calculateRetentionScore_double m now =
               js_min (Fin 1)
                 (if tagged
                  then js_times (js_times (js_plus (Fin (importance m))
                           (Fin (min 0.3 (real_of_int (accessCount m) * 0.05)))) (js_exp x)) (Fin 1.5)
                  else js_times (js_plus (Fin (importance m))
                           (Fin (min 0.3 (real_of_int (accessCount m) * 0.05)))) (js_exp x))"
    by (simp add: calculateRetentionScore_double_def Let_def tagged_def x_def)
  have formula: "calculateRetentionScore_double m now =
     js_min (Fin 1)
       (js_times
          (js_times (js_plus (Fin (importance m)) (Fin (min 0.3 (real_of_int (accessCount m) * 0.05))))
             (js_exp x))
          (Fin t))"
    unfolding dbl t_def by (simp add: js_times_times_one)
  have rl: "calculateRetentionScore m now = min 1 (base * exp x * t)"
    by (simp add: calculateRetentionScore_def Let_def base_def x_def t_def tagged_def)
  have range: "(if exp x \<le> MAX_VALUE
         then calculateRetentionScore_double m now = Fin (calculateRetentionScore m now)
              \<and> 0 \<le> calculateRetentionScore m now \<and> calculateRetentionScore m now \<le> 1
         else calculateRetentionScore_double m now
                = (if importance m = 0 \<and> accessCount m = 0 then NaN else Fin 1))"
    if h: "0 \<le> importance m" "importance m \<le> 1" "0 \<le> accessCount m"
  proof -
    have b0: "0 \<le> base"
      using h by (simp add: base_def)
    have "base \<le> 1.3"
      using h by (simp add: base_def min_def)
    moreover have "2 < MAX_VALUE"
      by (simp add: MAX_VALUE_def)
    ultimately have "\<bar>base\<bar> \<le> MAX_VALUE"
      using b0 by simp
    then have plus: "js_plus (Fin (importance m)) (Fin (min 0.3 (real_of_int (accessCount m) * 0.05)))
                       = Fin base"
      by (simp add: base_def number_of_real_small)
    have zero_iff: "base = 0 \<longleftrightarrow> importance m = 0 \<and> accessCount m = 0"
      using h by (auto simp: base_def min_def)
    have t1: "1 \<le> t" "0 < t"
      by (simp_all add: t_def)
    show ?thesis
    proof (cases "exp x \<le> MAX_VALUE")
      case False
      then have e: "js_exp x = PosInf"
        by (simp add: js_exp_cases)
      have "calculateRetentionScore_double m now = (if base = 0 then NaN else Fin 1)"
        unfolding formula plus e using b0 t1 by (simp add: t_def)
      with False zero_iff show ?thesis
        by simp
    next
      case True
      then have e: "js_exp x = Fin (exp x)"
        by (simp add: js_exp_cases)
      have p0: "0 \<le> base * exp x"
        using b0 by simp
      have nn: "0 \<le> calculateRetentionScore m now" "calculateRetentionScore m now \<le> 1"
        using p0 t1 by (simp_all add: rl)
      have "calculateRetentionScore_double m now = Fin (min 1 (base * exp x * t))"
      proof (cases "base * exp x \<le> MAX_VALUE")
        case False
        then have big: "MAX_VALUE < base * exp x"
          by simp
        then have "MAX_VALUE < base * exp x * t"
          using t1 p0 mult_left_mono [of 1 t "base * exp x"] by simp
        then have "min 1 (base * exp x * t) = 1"
          by (rule min_one_big)
        moreover have "calculateRetentionScore_double m now = Fin 1"
          unfolding formula plus e using big t1 by (simp add: number_of_real_big)
        ultimately show ?thesis by simp
      next
        case small: True
        then have m1: "js_times (Fin base) (Fin (exp x)) = Fin (base * exp x)"
          using p0 by (simp add: number_of_real_small)
        show ?thesis
        proof (cases "base * exp x * t \<le> MAX_VALUE")
          case True
          moreover have "0 \<le> base * exp x * t"
            using p0 t1 by simp
          ultimately have "js_times (Fin (base * exp x)) (Fin t) = Fin (base * exp x * t)"
            by (simp add: number_of_real_small)
          then show ?thesis
            unfolding formula plus e m1 by simp
        next
          case False
          then have big: "MAX_VALUE < base * exp x * t"
            by simp
          then have "js_times (Fin (base * exp x)) (Fin t) = PosInf"
            by (simp add: number_of_real_big)
          then have "calculateRetentionScore_double m now = Fin 1"
            unfolding formula plus e m1 by simp
          moreover have "min 1 (base * exp x * t) = 1"
            using big by (rule min_one_big)
          ultimately show ?thesis by simp
        qed
      qed
      with True nn show ?thesis
        by (simp add: rl)
    qed
  qed
  have past: "exp x \<le> MAX_VALUE" if "timestamp m \<le> now"
  proof -
    have "x \<le> 0"
      using that by (simp add: x_def)
    then have "exp x \<le> 1"
      by simp
    then show ?thesis
      using MAX_VALUE_bounds(1) by linarith
  qed
  from formula rl range past show ?thesis
    unfolding base_def x_def t_def tagged_iff by blast
qed

theorem retention_score_formula_witness:
  "0 \<le> importance tagged_item \<and> importance tagged_item \<le> 1 \<and> 0 \<le> accessCount tagged_item
   \<and> timestamp tagged_item \<le> 0
   \<and> exp (- (real_of_int (0 - timestamp tagged_item) / 86400000) * 0.1) \<le> MAX_VALUE
   \<and> calculateRetentionScore_double tagged_item 0 = Fin 0.75
   \<and> 0 \<le> importance future_half \<and> importance future_half \<le> 1 \<and> 0 \<le> accessCount future_half
   \<and> \<not> exp (- (real_of_int (0 - timestamp future_half) / 86400000) * 0.1) \<le> MAX_VALUE
   \<and> calculateRetentionScore_double future_half 0 = Fin 1"
proof -
  note t = retention_score_formula [of tagged_item 0]
  have h: "0 \<le> importance tagged_item \<and> importance tagged_item \<le> 1 \<and> 0 \<le> accessCount tagged_item"
    and p: "timestamp tagged_item \<le> 0"
    by (simp_all add: tagged_item_def item_of_def)
  have e: "exp (- (real_of_int (0 - timestamp tagged_item) / 86400000) * 0.1) \<le> MAX_VALUE"
    using t [THEN conjunct2, THEN conjunct2, THEN conjunct2] p by blast
  have "calculateRetentionScore_double tagged_item 0 = Fin (calculateRetentionScore tagged_item 0)"
    using t [THEN conjunct2, THEN conjunct2, THEN conjunct1] h e by simp
  moreover have "calculateRetentionScore tagged_item 0 = 0.75"
    using t [THEN conjunct2, THEN conjunct1] by (simp add: tagged_item_def item_of_def)
  ultimately have finite: "calculateRetentionScore_double tagged_item 0 = Fin 0.75"
    by simp
  note u = retention_score_formula [of future_half 0]
  have g: "0 \<le> importance future_half \<and> importance future_half \<le> 1 \<and> 0 \<le> accessCount future_half"
    and nz: "importance future_half \<noteq> 0"
    by (simp_all add: future_half_def item_of_def)
  have "- (real_of_int (0 - timestamp future_half) / 86400000) * 0.1 = 710"
    by (simp add: future_half_def item_of_def day_def)
  then have o: "\<not> exp (- (real_of_int (0 - timestamp future_half) / 86400000) * 0.1) \<le> MAX_VALUE"
    using exp_710_overflows by simp
  have inf: "calculateRetentionScore_double future_half 0 = Fin 1"
    using u [THEN conjunct2, THEN conjunct2, THEN conjunct1] g o nz by simp
  from h p e finite g o inf show ?thesis
    by blast
qed

text \<open>
  The claim as written puts the score in [0, 1] for every record with importance in
  [0, 1] and a non-negative access count.  For importance 0, access count 0 and a
  timestamp 7100 days after now the code computes \<open>0 * Math.exp(710)\<close>, which is
  \<open>0 * Infinity\<close>, and returns \<open>NaN\<close>.
\<close>

theorem retention_score_formula_counterexample:
  "importance future_item = 0 \<and> accessCount future_item = 0
   \<and> calculateRetentionScore_double future_item 0 = NaN"
proof -
  have "js_exp 710 = PosInf"
    using exp_710_overflows by (simp add: js_exp_def number_of_real_big)
  then show ?thesis
    by (simp add: calculateRetentionScore_double_def future_item_def item_of_def day_def Let_def
        number_of_real_def MAX_VALUE_def)
qed

subsection \<open>The long-term tier\<close>

text \<open>
  C10, as the code has it.  \<open>stats\<close> leaves \<open>longTerm\<close> alone; \<open>store\<close> leaves it alone
  unless the call triggers compression, and then appends the records ranked 36 to 55;
  \<open>retrieve\<close> maps it in place; \<open>compress\<close> appends the records ranked 36 to 55 or leaves it
  alone.  Under every operation the long-term records stay where they are, changed at most
  in \<open>accessCount\<close>, so the tier never shrinks.
\<close>

theorem longTerm_only_grows:
  "longTerm (apply_operation stringify s (now, Stats)) = longTerm s
   \<and> longTerm (storeMemory stringify now s item) =
       (if \<not> isDuplicate stringify s item \<and> length (shortTerm s) \<ge> 100
        then longTerm s @ take 20 (drop 35 (ranked now (shortTerm s @ [item])))
        else longTerm s)
   \<and> longTerm (snd (retrieveMemories stringify now s query options)) =
       map (bump_access (map (\<lambda>(m, relevanceScore). item_id m)
                          (fst (retrieveMemories stringify now s query options))))
         (longTerm s)
   \<and> longTerm (compressMemories now s) =
       (if length (shortTerm s) > 50
        then longTerm s @ take 20 (drop 35 (ranked now (shortTerm s)))
        else longTerm s)
   \<and> map (accessCount_update (\<lambda>_. 0))
         (take (length (longTerm s)) (longTerm (apply_operation stringify s (now, op))))
       = map (accessCount_update (\<lambda>_. 0)) (longTerm s)
   \<and> length (longTerm s) \<le> length (longTerm (apply_operation stringify s (now, op)))"
proof -
  have st: "longTerm (storeMemory stringify now s item) =
       (if \<not> isDuplicate stringify s item \<and> length (shortTerm s) \<ge> 100
        then longTerm s @ take 20 (drop 35 (ranked now (shortTerm s @ [item])))
        else longTerm s)" for item
  proof (cases "isDuplicate stringify s item")
    case True
    then show ?thesis by (simp add: store_duplicate)
  next
    case False
    then show ?thesis by (simp add: store_not_duplicate longTerm_compress)
  qed
  have co: "longTerm (compressMemories now s) =
       (if length (shortTerm s) > 50
        then longTerm s @ take 20 (drop 35 (ranked now (shortTerm s)))
        else longTerm s)"
    by (simp add: compressMemories_def longTerm_compress)
  have erase_bump: "accessCount_update (\<lambda>_. 0) (bump_access ids m) = accessCount_update (\<lambda>_. 0) m"
    for ids and m :: "'a MemoryItem"
    by (simp add: bump_access_def)
  have keep: "map (accessCount_update (\<lambda>_. 0))
         (take (length (longTerm s)) (longTerm (apply_operation stringify s (now, op))))
       = map (accessCount_update (\<lambda>_. 0)) (longTerm s)"
  proof (cases op)
    case (Store item)
    then show ?thesis by (simp add: st)
  next
    case (Retrieve query options)
    then show ?thesis by (simp add: longTerm_retrieve erase_bump)
  next
    case Compress
    then show ?thesis by (simp add: co)
  next
    case Stats
    then show ?thesis by simp
  qed
  have len: "length (longTerm s) \<le> length (longTerm (apply_operation stringify s (now, op)))"
  proof (cases op)
    case (Store item)
    then show ?thesis by (simp add: st)
  next
    case (Retrieve query options)
    then show ?thesis by (simp add: longTerm_retrieve)
  next
    case Compress
    then show ?thesis by (simp add: co)
  next
    case Stats
    then show ?thesis by simp
  qed
  from st co keep len longTerm_retrieve show ?thesis
    by simp
qed

text \<open>
  The claim as written has \<open>store\<close> leave \<open>longTerm\<close> unchanged.  Storing a 101st record in
  a store that holds 100 short-term records compresses, and 20 records enter \<open>longTerm\<close>.
\<close>

theorem longTerm_only_grows_counterexample:
  "longTerm (demo_state 100) = []
   \<and> length (longTerm (storeMemory JSON_stringify_string 0 (demo_state 100) (demo_item 100))) = 20"
proof -
  have d: "\<not> isDuplicate JSON_stringify_string (demo_state 100) (demo_item 100)"
    by (rule demo_not_duplicate) simp
  have l: "length (shortTerm (demo_state 100)) = 100" "longTerm (demo_state 100) = []"
    by (simp_all add: demo_state_def)
  show ?thesis
    using l by (simp add: store_not_duplicate [OF d] longTerm_compress)
qed

end
